theory Spec2Isabelle
  imports Main "HOL-Library.Word" "HOL-Library.AList"
begin

unbundle bit_operations_syntax

section \<open>Common types\<close>

text \<open>
  A Go \<open>byte\<close>/\<open>uint8\<close> is an 8-bit word, \<open>uint16\<close> a 16-bit word and \<open>uint64\<close> a 64-bit
  word (arithmetic wraps). A Go \<open>[]byte\<close>, a \<open>[16]byte\<close> and a Go \<open>string\<close> are all
  sequences of bytes. A \<open>time.Time\<close> is an integer count of nanoseconds since Go's zero
  time, so \<open>t.IsZero()\<close> is \<open>t = 0\<close>; a \<open>time.Duration\<close> is an integer count of
  nanoseconds. Every call of \<open>time.Now()\<close> in the source is a parameter of the model.
\<close>

type_synonym byte = "8 word"
type_synonym gostring = "byte list"
type_synonym cid = "byte list"
type_synonym gotime = int
type_synonym duration = int

definition IsZero :: "gotime \<Rightarrow> bool" where
  "IsZero t = (t = 0)"

definition After :: "gotime \<Rightarrow> gotime \<Rightarrow> bool" where
  "After t u = (u < t)"

text \<open>
  \<open>t.Sub(u)\<close> saturates at the largest and smallest \<open>Duration\<close> (a signed 64-bit
  count); \<open>time.Since(t)\<close> is \<open>time.Now().Sub(t)\<close>; \<open>t.Add(d)\<close> shifts an instant.
\<close>

definition maxDuration :: duration where
  "maxDuration = 2 ^ 63 - 1"

definition minDuration :: duration where
  "minDuration = - (2 ^ 63)"

definition Sub :: "gotime \<Rightarrow> gotime \<Rightarrow> duration" where
  "Sub t u = (let d = t - u in
     if d > maxDuration then maxDuration else if d < minDuration then minDuration else d)"

definition Since :: "gotime \<Rightarrow> gotime \<Rightarrow> duration" where
  "Since now t = Sub now t"

definition Add :: "gotime \<Rightarrow> duration \<Rightarrow> gotime" where
  "Add t d = t + d"

definition Second :: duration where
  "Second = 1000000000"

definition Minute :: duration where
  "Minute = 60 * Second"

text \<open>The slice expression \<open>s[lo:hi]\<close>, used only where the source has checked the length.\<close>

definition subslice :: "'a list \<Rightarrow> nat \<Rightarrow> nat \<Rightarrow> 'a list" where
  "subslice s lo hi = take (hi - lo) (drop lo s)"

section \<open>Package sacn: types and parser\<close>

definition E131MaxChannels :: nat where
  "E131MaxChannels = 512"

definition E131HeaderSize :: nat where
  "E131HeaderSize = 126"

definition E131RootVector :: "32 word" where
  "E131RootVector = 0x00000004"

definition E131FramingVector :: "32 word" where
  "E131FramingVector = 0x00000002"

definition E131DMPVector :: byte where
  "E131DMPVector = 0x02"

definition ACNPacketIdentifier :: "byte list" where
  "ACNPacketIdentifier =
     [0x41, 0x53, 0x43, 0x2d, 0x45, 0x31, 0x2e, 0x31, 0x37, 0x00, 0x00, 0x00]"

record Packet =
  CID :: cid
  SourceName :: gostring
  Priority :: byte
  Sequence :: byte
  Universe :: "16 word"
  StartCode :: byte
  ChannelData :: "byte list"
  SourceAddr :: "gostring option"
  ReceivedAt :: gotime

record ParseError =
  Message :: string
  Offset :: int

definition NewParseError :: "string \<Rightarrow> int \<Rightarrow> ParseError" where
  "NewParseError message offset = \<lparr>Message = message, Offset = offset\<rparr>"

text \<open>\<open>bytes.IndexByte\<close>: the index of the first occurrence of \<open>c\<close>, or \<open>-1\<close>.\<close>

fun IndexByte :: "byte list \<Rightarrow> byte \<Rightarrow> int" where
  "IndexByte [] c = -1"
| "IndexByte (b # bs) c =
     (if b = c then 0 else (let r = IndexByte bs c in if r < 0 then -1 else r + 1))"

text \<open>\<open>binary.BigEndian.Uint32\<close> and \<open>binary.BigEndian.Uint16\<close>.\<close>

definition Uint32 :: "byte list \<Rightarrow> 32 word" where
  "Uint32 b = ucast (b ! 3) OR push_bit 8 (ucast (b ! 2)) OR
              push_bit 16 (ucast (b ! 1)) OR push_bit 24 (ucast (b ! 0))"

definition Uint16 :: "byte list \<Rightarrow> 16 word" where
  "Uint16 b = ucast (b ! 1) OR push_bit 8 (ucast (b ! 0))"

text \<open>
  The field extraction of \<open>Parse\<close>, run once every validation has passed. The packet
  starts as the zero value with \<open>ReceivedAt\<close> set; the source name stays empty when the
  terminator is the first byte; the channel data stays nil (the empty sequence) when the
  input is exactly header-sized.
\<close>

definition extractFields :: "gotime \<Rightarrow> byte list \<Rightarrow> Packet" where
  "extractFields now data =
     (let sourceNameBytes = subslice data 44 108;
          nullIdx = IndexByte sourceNameBytes 0
      in \<lparr>CID = subslice data 22 38,
          SourceName =
            (if nullIdx > 0 then take (nat nullIdx) sourceNameBytes
             else if nullIdx < 0 then sourceNameBytes
             else []),
          Priority = data ! 108,
          Sequence = data ! 111,
          Universe = Uint16 (subslice data 113 115),
          StartCode = data ! 125,
          ChannelData =
            (if length data > E131HeaderSize then
               (let channelCount = length data - E131HeaderSize;
                    channelCount = (if channelCount > E131MaxChannels
                                    then E131MaxChannels else channelCount)
                in subslice data E131HeaderSize (E131HeaderSize + channelCount))
             else []),
          SourceAddr = None,
          ReceivedAt = now\<rparr>)"

definition Parse :: "gotime \<Rightarrow> byte list \<Rightarrow> ParseError + Packet" where
  "Parse now data =
     (if length data < E131HeaderSize then Inl (NewParseError ''packet too short'' 0)
      else if data ! 0 \<noteq> 0x00 \<or> data ! 1 \<noteq> 0x10
        then Inl (NewParseError ''invalid preamble size'' 0)
      else if subslice data 4 16 \<noteq> ACNPacketIdentifier
        then Inl (NewParseError ''invalid ACN packet identifier'' 4)
      else if Uint32 (subslice data 18 22) \<noteq> E131RootVector
        then Inl (NewParseError ''invalid root vector'' 18)
      else if Uint32 (subslice data 40 44) \<noteq> E131FramingVector
        then Inl (NewParseError ''invalid framing vector'' 40)
      else if data ! 117 \<noteq> E131DMPVector
        then Inl (NewParseError ''invalid DMP vector'' 117)
      else Inr (extractFields now data))"

text \<open>
  A well-formed E1.31 data packet used to exercise the parser: the fixed header fields,
  a CID of sixteen \<open>1\<close> bytes, the source name \<open>name\<close> padded with \<open>0x00\<close> to 64 bytes,
  priority 100, sequence 7, universe 1 and the channel bytes \<open>chans\<close>.
\<close>

definition buildPacket :: "gostring \<Rightarrow> byte list \<Rightarrow> byte list" where
  "buildPacket name chans =
     [0x00, 0x10, 0x00, 0x00] @ ACNPacketIdentifier @ [0x00, 0x00] @
     [0x00, 0x00, 0x00, 0x04] @ replicate 16 1 @ [0x00, 0x00] @
     [0x00, 0x00, 0x00, 0x02] @ take 64 (name @ replicate 64 0) @
     [100, 0x00, 0x00, 7, 0x00, 0x00, 0x01, 0x00, 0x00, 0x02] @
     replicate 7 0 @ [0x00] @ chans"

section \<open>Package universe: channel state and the manager\<close>

text \<open>
  Objects that the source reaches through pointers live in a store: a list of objects in
  which an address is an index and allocation appends. A pointer is an address, \<open>nil\<close>
  is \<open>None\<close>, and a handle passed to a caller is the address itself. Go maps are
  association lists, looked up with \<open>map_of\<close>; the order of the entries stands for the
  unspecified iteration order of the Go map, and no result below depends on it.
\<close>

type_synonym addr = nat

record Channel =
  Value :: byte
  Active :: bool
  LastUpdate :: gotime

record Universe =
  ID :: "16 word"
  Channels :: "Channel list"
  SourceName :: gostring
  SourceCID :: cid
  Priority :: byte
  LastSequence :: byte
  LastPacket :: gotime
  PacketCount :: "64 word"

definition NewUniverse :: "16 word \<Rightarrow> Universe" where
  "NewUniverse uid =
     \<lparr>ID = uid,
      Channels = replicate 512 \<lparr>Value = 0, Active = False, LastUpdate = 0\<rparr>,
      SourceName = [], SourceCID = replicate 16 0, Priority = 0, LastSequence = 0,
      LastPacket = 0, PacketCount = 0\<rparr>"

text \<open>The channel loop of \<open>Update\<close>: \<open>for i := 0; i < len(channelData) && i < 512; i++\<close>.\<close>

function updateChannels :: "nat \<Rightarrow> byte list \<Rightarrow> gotime \<Rightarrow> Channel list \<Rightarrow> Channel list" where
  "updateChannels i channelData now chs =
     (if i < length channelData \<and> i < 512
      then updateChannels (Suc i) channelData now
             (chs[i := (chs ! i)\<lparr>Value := channelData ! i, Active := True, LastUpdate := now\<rparr>])
      else chs)"
  by pat_completeness auto
termination
  by (relation "measure (\<lambda>(i, channelData, now, chs). 512 - i)") auto

definition Update ::
  "gotime \<Rightarrow> byte list \<Rightarrow> gostring \<Rightarrow> cid \<Rightarrow> byte \<Rightarrow> byte \<Rightarrow> Universe \<Rightarrow> Universe" where
  "Update now channelData sourceName sourceCID priority sequence u =
     (let u = u\<lparr>Universe.SourceName := sourceName,
                Universe.SourceCID := sourceCID,
                Universe.Priority := priority,
                Universe.LastSequence := sequence,
                Universe.LastPacket := now,
                Universe.PacketCount := Universe.PacketCount u + 1\<rparr>
      in u\<lparr>Channels := updateChannels 0 channelData now (Channels u)\<rparr>)"



definition ActiveChannelCount :: "Universe \<Rightarrow> nat" where
  "ActiveChannelCount u = length (filter Active (Channels u))"

definition IsStale :: "gotime \<Rightarrow> duration \<Rightarrow> Universe \<Rightarrow> bool" where
  "IsStale now timeout u =
     (if IsZero (Universe.LastPacket u) then True
      else Since now (Universe.LastPacket u) > timeout)"

record UniverseInfo =
  ID :: "16 word"
  SourceName :: gostring
  SourceCID :: cid
  Priority :: byte
  LastSequence :: byte
  LastPacket :: gotime
  PacketCount :: "64 word"


text \<open>
  The manager maps universe IDs to addresses of \<open>Universe\<close> objects in the store
  \<open>h\<close>. \<open>GetOrCreate\<close>, \<open>Get\<close>, \<open>GetAll\<close> and \<open>GetActiveUniverses\<close> return those
  addresses, as the source returns \<open>*Universe\<close>.
\<close>

record Manager =
  universes :: "(16 word \<times> addr) list"





text \<open>
  \<open>IsStale\<close> reads the clock at each call, so a scan over the map is given the reading
  \<open>clock uid\<close> taken when the universe stored under \<open>uid\<close> is examined.
\<close>

definition GetActiveUniverses ::
  "(16 word \<Rightarrow> gotime) \<Rightarrow> duration \<Rightarrow> Manager \<times> Universe list \<Rightarrow> addr list" where
  "GetActiveUniverses clock timeout s = (case s of (m, h) \<Rightarrow>
     sort_key (\<lambda>u. Universe.ID (h ! u))
       (map snd (filter (\<lambda>(uid, u). \<not> IsStale (clock uid) timeout (h ! u)) (Manager.universes m))))"

definition Count :: "Manager \<Rightarrow> nat" where
  "Count m = length (Manager.universes m)"


text \<open>
  The loop of \<open>PruneStale\<close> ranges over the entries of the map; the only entry it
  deletes is the one being visited, so every entry is visited exactly once.
\<close>

fun pruneLoop ::
  "(16 word \<Rightarrow> gotime) \<Rightarrow> duration \<Rightarrow> Universe list \<Rightarrow> (16 word \<times> addr) list \<Rightarrow>
   (16 word \<times> addr) list \<times> nat \<Rightarrow> (16 word \<times> addr) list \<times> nat" where
  "pruneLoop clock timeout h [] (us, pruned) = (us, pruned)"
| "pruneLoop clock timeout h ((uid, u) # rest) (us, pruned) =
     (if IsStale (clock uid) timeout (h ! u)
      then pruneLoop clock timeout h rest (AList.delete uid us, pruned + 1)
      else pruneLoop clock timeout h rest (us, pruned))"

definition PruneStale ::
  "(16 word \<Rightarrow> gotime) \<Rightarrow> duration \<Rightarrow> Manager \<times> Universe list \<Rightarrow> nat \<times> Manager" where
  "PruneStale clock timeout s = (case s of (m, h) \<Rightarrow>
     (case pruneLoop clock timeout h (Manager.universes m) (Manager.universes m, 0) of
        (us, pruned) \<Rightarrow> (pruned, m\<lparr>Manager.universes := us\<rparr>)))"

text \<open>The test each visited entry is put to by the scans of the manager.\<close>

definition staleEntry ::
  "(16 word \<Rightarrow> gotime) \<Rightarrow> duration \<Rightarrow> Universe list \<Rightarrow> 16 word \<times> addr \<Rightarrow> bool" where
  "staleEntry clock timeout h e = IsStale (clock (fst e)) timeout (h ! snd e)"

section \<open>Package stats: the tracker\<close>

definition lossWindowDuration :: duration where
  "lossWindowDuration = Minute"

definition sourceRestartThreshold :: int where
  "sourceRestartThreshold = 200"

record PacketEvent =
  Timestamp :: gotime
  Received :: "64 word"
  Lost :: "64 word"

record Source =
  CID :: cid
  Name :: gostring
  LastSequence :: byte
  LastSeen :: gotime
  PacketCount :: "64 word"
  LostPackets :: "64 word"

text \<open>
  The \<open>UniverseStats\<close> struct as it lies in memory, for the memory model at the end of
  the definitions: its \<open>Sources\<close> map holds the pointers themselves, \<open>*Source\<close> as addresses.
\<close>

record StatsObject =
  UniverseID :: "16 word"
  Sources :: "(cid \<times> addr) list"
  PacketCount :: "64 word"
  LostPackets :: "64 word"
  LastPacket :: gotime
  packetsInWindow :: "gotime list"
  lossWindow :: "PacketEvent list"

text \<open>
  A \<open>UniverseStats\<close> object lives in the store and is reached through its address. Each
  \<open>Source\<close> is allocated by \<open>RecordPacket\<close> and referenced from exactly one \<open>Sources\<close>
  map, so the map holds the source objects themselves, and a write through a \<open>*Source\<close>
  is a write to the \<open>UniverseStats\<close> object that owns it.
\<close>

record UniverseStats =
  UniverseID :: "16 word"
  Sources :: "(cid \<times> Source) list"
  PacketCount :: "64 word"
  LostPackets :: "64 word"
  LastPacket :: gotime
  packetsInWindow :: "gotime list"
  lossWindow :: "PacketEvent list"

record Tracker =
  universes :: "(16 word \<times> addr) list"
  rateWindow :: duration

definition NewTracker :: Tracker where
  "NewTracker = \<lparr>universes = [], rateWindow = Second\<rparr>"

text \<open>
  The sequence-gap check of \<open>RecordPacket\<close>: it yields \<open>lostThisPacket\<close> and the
  source and universe objects with their lost counters advanced.
\<close>

definition checkLoss ::
  "bool \<Rightarrow> byte \<Rightarrow> Source \<Rightarrow> UniverseStats \<Rightarrow> 64 word \<times> Source \<times> UniverseStats" where
  "checkLoss sourceExists sequence source stats =
     (if sourceExists \<and> Source.PacketCount source > 0 then
        (let expectedSeq = (word_of_int ((uint (Source.LastSequence source) + 1) mod 256) :: byte)
         in if sequence \<noteq> expectedSeq then
              (let lost = (if sequence > expectedSeq
                           then uint sequence - uint expectedSeq
                           else 256 - uint expectedSeq + uint sequence)
               in if lost < sourceRestartThreshold then
                    (let lostThisPacket = (word_of_int lost :: 64 word)
                     in (lostThisPacket,
                         source\<lparr>Source.LostPackets := Source.LostPackets source + lostThisPacket\<rparr>,
                         stats\<lparr>UniverseStats.LostPackets :=
                                 UniverseStats.LostPackets stats + lostThisPacket\<rparr>))
                  else (0, source, stats))
            else (0, source, stats))
      else (0, source, stats))"

text \<open>The part of \<open>RecordPacket\<close> that runs under the lock of one \<open>UniverseStats\<close>.\<close>

definition recordLocked ::
  "gotime \<Rightarrow> duration \<Rightarrow> cid \<Rightarrow> gostring \<Rightarrow> byte \<Rightarrow> UniverseStats \<Rightarrow> UniverseStats" where
  "recordLocked now window sourceCID sourceName sequence stats =
     (let stats = stats\<lparr>UniverseStats.PacketCount := UniverseStats.PacketCount stats + 1,
                        UniverseStats.LastPacket := now\<rparr>;
          stats = stats\<lparr>packetsInWindow := packetsInWindow stats @ [now]\<rparr>;
          cutoff = Add now (- window);
          stats = stats\<lparr>packetsInWindow := filter (\<lambda>pt. After pt cutoff) (packetsInWindow stats)\<rparr>;
          sourceExists = (map_of (Sources stats) sourceCID \<noteq> None);
          source = (case map_of (Sources stats) sourceCID of
                      Some source \<Rightarrow> source
                    | None \<Rightarrow> \<lparr>CID = sourceCID, Name = sourceName, LastSequence = 0,
                               LastSeen = 0, Source.PacketCount = 0,
                               Source.LostPackets = 0\<rparr>)
      in (case checkLoss sourceExists sequence source stats of
            (lostThisPacket, source, stats) \<Rightarrow>
              (let stats = stats\<lparr>lossWindow := lossWindow stats @
                             [\<lparr>Timestamp = now, Received = 1, Lost = lostThisPacket\<rparr>]\<rparr>;
                   lossCutoff = Add now (- lossWindowDuration);
                   stats = stats\<lparr>lossWindow :=
                             filter (\<lambda>evt. After (Timestamp evt) lossCutoff) (lossWindow stats)\<rparr>;
                   source = source\<lparr>Source.LastSequence := sequence,
                                     Source.LastSeen := now,
                                     Source.PacketCount := Source.PacketCount source + 1,
                                     Source.Name := sourceName\<rparr>
               in stats\<lparr>Sources := AList.update sourceCID source (Sources stats)\<rparr>)))"

definition RecordPacket ::
  "gotime \<Rightarrow> 16 word \<Rightarrow> cid \<Rightarrow> gostring \<Rightarrow> byte \<Rightarrow>
   Tracker \<times> UniverseStats list \<Rightarrow> Tracker \<times> UniverseStats list" where
  "RecordPacket now universeID sourceCID sourceName sequence s =
     (case s of (t, h) \<Rightarrow>
        (case (case map_of (Tracker.universes t) universeID of
                 Some stats \<Rightarrow> (t, h, stats)
               | None \<Rightarrow>
                   (let stats = length h
                    in (t\<lparr>Tracker.universes :=
                             AList.update universeID stats (Tracker.universes t)\<rparr>,
                        h @ [\<lparr>UniverseID = universeID, Sources = [], PacketCount = 0,
                               LostPackets = 0, LastPacket = 0, packetsInWindow = [],
                               lossWindow = []\<rparr>],
                        stats)))
         of (t, h, stats) \<Rightarrow>
           (t, h[stats := recordLocked now (rateWindow t) sourceCID sourceName sequence
                            (h ! stats)])))"

text \<open>
  \<open>GetUniverseStats\<close> returns the pointer stored in the map, \<open>nil\<close> for an unknown
  universe. The accessors that return \<open>float64\<close> rates and percentages are computed from
  the counters and windows of the object and are not part of the model.
\<close>

definition GetUniverseStats :: "16 word \<Rightarrow> Tracker \<Rightarrow> addr option" where
  "GetUniverseStats universeID t = map_of (Tracker.universes t) universeID"

text \<open>The zeroing that \<open>ResetUniverseStats\<close> performs on the object it has locked.\<close>

definition resetLocked :: "UniverseStats \<Rightarrow> UniverseStats" where
  "resetLocked stats =
     stats\<lparr>UniverseStats.PacketCount := 0,
           UniverseStats.LostPackets := 0,
           packetsInWindow := [],
           lossWindow := [],
           Sources := map (\<lambda>(k, source).
                        (k, source\<lparr>Source.PacketCount := 0, Source.LostPackets := 0\<rparr>))
                      (Sources stats)\<rparr>"

definition ResetUniverseStats ::
  "16 word \<Rightarrow> Tracker \<times> UniverseStats list \<Rightarrow> Tracker \<times> UniverseStats list" where
  "ResetUniverseStats universeID s =
     (case s of (t, h) \<Rightarrow>
        (case map_of (Tracker.universes t) universeID of
           Some stats \<Rightarrow> (t, h[stats := resetLocked (h ! stats)])
         | None \<Rightarrow> (t, h)))"

definition ResetAllStats ::
  "Tracker \<times> UniverseStats list \<Rightarrow> Tracker \<times> UniverseStats list" where
  "ResetAllStats s = (case s of (t, h) \<Rightarrow> (t\<lparr>Tracker.universes := []\<rparr>, h))"

definition GetSources :: "16 word \<Rightarrow> Tracker \<times> UniverseStats list \<Rightarrow> Source list" where
  "GetSources universeID s =
     (case s of (t, h) \<Rightarrow>
        (case map_of (Tracker.universes t) universeID of
           None \<Rightarrow> []
         | Some stats \<Rightarrow> map snd (Sources (h ! stats))))"

definition GetAllUniverseIDs :: "Tracker \<Rightarrow> 16 word list" where
  "GetAllUniverseIDs t = map fst (Tracker.universes t)"

text \<open>
  Every pointer held by the tracker refers to an allocated object (Go pointers do not
  dangle), and no two universe IDs share an object (each object is allocated for one
  ID). The property holds of the new tracker and is kept by every operation.
\<close>

definition validTracker :: "Tracker \<times> UniverseStats list \<Rightarrow> bool" where
  "validTracker s = (case s of (t, h) \<Rightarrow>
     list_all (\<lambda>e. snd e < length h) (Tracker.universes t) \<and>
     distinct (map snd (Tracker.universes t)))"

text \<open>
  What a reader sees of one universe and of one of its sources: the lifetime lost count
  of the universe, and the lifetime received and lost counts of a source, each \<open>0\<close> when
  the universe or the source is not tracked.
\<close>

definition universeLost :: "16 word \<Rightarrow> Tracker \<times> UniverseStats list \<Rightarrow> 64 word" where
  "universeLost universeID s =
     (case s of (t, h) \<Rightarrow>
        (case GetUniverseStats universeID t of
           None \<Rightarrow> 0
         | Some stats \<Rightarrow> UniverseStats.LostPackets (h ! stats)))"

definition findSource :: "16 word \<Rightarrow> cid \<Rightarrow> Tracker \<times> UniverseStats list \<Rightarrow> Source option" where
  "findSource universeID sourceCID s =
     (case s of (t, h) \<Rightarrow>
        (case GetUniverseStats universeID t of
           None \<Rightarrow> None
         | Some stats \<Rightarrow> map_of (Sources (h ! stats)) sourceCID))"

definition sourceLost :: "16 word \<Rightarrow> cid \<Rightarrow> Tracker \<times> UniverseStats list \<Rightarrow> 64 word" where
  "sourceLost universeID sourceCID s =
     (case findSource universeID sourceCID s of
        None \<Rightarrow> 0 | Some source \<Rightarrow> Source.LostPackets source)"

definition sourceCount :: "16 word \<Rightarrow> cid \<Rightarrow> Tracker \<times> UniverseStats list \<Rightarrow> 64 word" where
  "sourceCount universeID sourceCID s =
     (case findSource universeID sourceCID s of
        None \<Rightarrow> 0 | Some source \<Rightarrow> Source.PacketCount source)"

text \<open>
  The loss rule as the specification words it: the expected sequence number is
  \<open>(lastSequence + 1) mod 256\<close>, and the forward gap is \<open>sequence - expected\<close> when
  \<open>sequence > expected\<close> and \<open>256 - expected + sequence\<close> otherwise.
\<close>

definition specExpected :: "byte \<Rightarrow> nat" where
  "specExpected lastSequence = (unat lastSequence + 1) mod 256"

definition specForwardGap :: "nat \<Rightarrow> byte \<Rightarrow> nat" where
  "specForwardGap expected sequence =
     (if unat sequence > expected then unat sequence - expected
      else 256 - expected + unat sequence)"

text \<open>
  The number of packets the specification counts as lost when a packet with the given
  sequence number arrives from a source whose entry before the call is \<open>prior\<close>:
  nothing for a first packet, nothing when the packet is the expected one, the forward
  gap when it is below the restart threshold of 200, and nothing otherwise.
\<close>

definition specLoss :: "Source option \<Rightarrow> byte \<Rightarrow> nat" where
  "specLoss prior sequence =
     (case prior of
        None \<Rightarrow> 0
      | Some source \<Rightarrow>
          if Source.PacketCount source = 0 then 0
          else if unat sequence = specExpected (Source.LastSequence source) then 0
          else if specForwardGap (specExpected (Source.LastSequence source)) sequence < 200
            then specForwardGap (specExpected (Source.LastSequence source)) sequence
          else 0)"

section \<open>One memory for the core and its callers\<close>

text \<open>
  To tell a copy from a pointer, every object is here given a place in one memory, a list
  of cells in which an address is an index and allocation appends: the \<open>UniverseStats\<close>
  and \<open>Source\<close> objects of the tracker, the \<open>Universe\<close> objects of the manager, and
  whatever a query returns by value or in a new slice (the backing array of a \<open>[]uint16\<close>
  or of a \<open>[]*Universe\<close>, the elements of a \<open>[]Source\<close>, a \<open>UniverseInfo\<close>, a
  \<open>Channel\<close>, a \<open>[512]Channel\<close>). A pointer is an address; a pointer that does not
  refer to an object of its type stands for \<open>nil\<close>, and dereferencing it is the run-time
  panic, the result \<open>None\<close>. The operations on this memory carry the suffix \<open>M\<close>;
  \<open>GetUniverseStats\<close>, \<open>Get\<close> and \<open>Remove\<close> only use the maps and are the ones above.
\<close>

datatype cell =
    StatsCell StatsObject
  | SourceCell Source
  | UniverseCell Universe
  | IDsCell "16 word list"
  | PtrsCell "addr list"
  | InfoCell UniverseInfo
  | ChannelCell Channel
  | ChannelsCell "Channel list"

type_synonym memory = "cell list"

definition cellAt :: "memory \<Rightarrow> addr \<Rightarrow> cell option" where
  "cellAt m a = (if a < length m then Some (m ! a) else None)"

definition loadStats :: "memory \<Rightarrow> addr \<Rightarrow> StatsObject option" where
  "loadStats m p = (case cellAt m p of Some (StatsCell stats) \<Rightarrow> Some stats | _ \<Rightarrow> None)"

definition loadSource :: "memory \<Rightarrow> addr \<Rightarrow> Source option" where
  "loadSource m p = (case cellAt m p of Some (SourceCell source) \<Rightarrow> Some source | _ \<Rightarrow> None)"

definition loadUniverse :: "memory \<Rightarrow> addr \<Rightarrow> Universe option" where
  "loadUniverse m p = (case cellAt m p of Some (UniverseCell u) \<Rightarrow> Some u | _ \<Rightarrow> None)"

subsection \<open>The tracker on the memory\<close>











text \<open>
  \<open>GetSources\<close> makes a new slice and appends to it the value \<open>*s\<close> of every source:
  the elements of the slice are new cells, and the call returns their addresses. For an
  unknown universe it returns the \<open>nil\<close> slice.
\<close>

fun copySources :: "memory \<Rightarrow> addr list \<Rightarrow> Source list option" where
  "copySources m [] = Some []"
| "copySources m (s # rest) =
     (case loadSource m s of
        None \<Rightarrow> None
      | Some source \<Rightarrow> map_option ((#) source) (copySources m rest))"



subsection \<open>The manager and its universes on the memory\<close>






text \<open>
  \<open>GetAll\<close> collects the pointers of the map in a new slice and sorts it by the \<open>ID\<close>
  read through each pointer, which \<open>sort.Slice\<close> does as soon as there are two of them.
\<close>

definition universeID :: "memory \<Rightarrow> addr \<Rightarrow> 16 word" where
  "universeID m p = (case loadUniverse m p of Some u \<Rightarrow> Universe.ID u | None \<Rightarrow> 0)"


subsection \<open>What the core can reach\<close>

text \<open>
  The addresses the core refers to: the pointers in the map of the tracker, the source
  pointers in the \<open>Sources\<close> of the objects behind them, and the pointers in the map of
  the manager. The core is well formed when each of them refers to an object of its
  type, as in every memory the core has built. A cell is out of the core's reach when it
  is allocated and none of these addresses is its own.
\<close>

definition sourcePointers :: "memory \<Rightarrow> addr \<Rightarrow> addr list" where
  "sourcePointers m p =
     (case loadStats m p of Some stats \<Rightarrow> map snd (StatsObject.Sources stats) | None \<Rightarrow> [])"

definition reach :: "Tracker \<Rightarrow> Manager \<Rightarrow> memory \<Rightarrow> addr list" where
  "reach t mg m =
     map snd (Tracker.universes t) @
     concat (map (sourcePointers m) (map snd (Tracker.universes t))) @
     map snd (Manager.universes mg)"

definition wellFormed :: "Tracker \<Rightarrow> Manager \<Rightarrow> memory \<Rightarrow> bool" where
  "wellFormed t mg m =
     (list_all (\<lambda>p. loadStats m p \<noteq> None) (map snd (Tracker.universes t)) \<and>
      list_all (\<lambda>p. loadSource m p \<noteq> None)
        (concat (map (sourcePointers m) (map snd (Tracker.universes t)))) \<and>
      list_all (\<lambda>p. loadUniverse m p \<noteq> None) (map snd (Manager.universes mg)))"

definition outOfReach :: "addr \<Rightarrow> Tracker \<Rightarrow> Manager \<Rightarrow> memory \<Rightarrow> bool" where
  "outOfReach a t mg m = (a < length m \<and> a \<notin> set (reach t mg m))"

section \<open>Properties of the parser\<close>

lemma IndexByte_eq:
  "IndexByte bs c = (if c \<in> set bs then int (length (takeWhile (\<lambda>b. b \<noteq> c) bs)) else -1)"
  by (induction bs) (simp_all add: Let_def)

lemma take_IndexByte:
  "c \<in> set bs \<Longrightarrow> take (nat (IndexByte bs c)) bs = takeWhile (\<lambda>b. b \<noteq> c) bs"
  using takeWhile_eq_take[of "\<lambda>b. b \<noteq> c" bs] by (simp add: IndexByte_eq)

lemma takeWhile_all: "c \<notin> set bs \<Longrightarrow> takeWhile (\<lambda>b. b \<noteq> c) bs = bs"
  by (induction bs) auto

lemma extractFields_SourceName:
  "Packet.SourceName (extractFields now data) = takeWhile (\<lambda>b. b \<noteq> 0) (subslice data 44 108)"
proof (cases "0 \<in> set (subslice data 44 108)")
  case True
  then show ?thesis 
  by (simp add: extractFields_def Let_def take_IndexByte) (simp add: IndexByte_eq)
next
  case False
  then show ?thesis
    by (simp add: extractFields_def Let_def IndexByte_eq takeWhile_all)
qed

lemma Parse_Inr: "Parse now data = Inr p \<Longrightarrow> p = extractFields now data \<and> 126 \<le> length data"
  by (simp add: Parse_def E131HeaderSize_def split: if_splits)

lemma Parse_take: "Parse now data = Inr p \<Longrightarrow> Parse now (take 126 data) = Inr (extractFields now (take 126 data))"
  by (simp add: Parse_def E131HeaderSize_def subslice_def take_drop min_def split: if_splits)

text \<open>
  Claim C5. For every input that \<open>Parse\<close> accepts, the source name is the 64 bytes at
  offsets 44 to 107 read up to, and excluding, the first \<open>0x00\<close> byte; when those 64 bytes
  hold no \<open>0x00\<close> the name is all 64 bytes; when the byte at offset 44 is \<open>0x00\<close> the name
  is empty.
\<close>

theorem Parse_SourceName:
  "Parse now data = Inr p \<Longrightarrow>
     length (subslice data 44 108) = 64 \<and>
     Packet.SourceName p = takeWhile (\<lambda>b. b \<noteq> 0) (subslice data 44 108) \<and>
     (0 \<notin> set (subslice data 44 108) \<longrightarrow> Packet.SourceName p = subslice data 44 108) \<and>
     (data ! 44 = 0 \<longrightarrow> Packet.SourceName p = [])"
proof -
  assume a: "Parse now data = Inr p"
  then have p: "p = extractFields now data" and len: "126 \<le> length data"
    using Parse_Inr by blast+
  have l64: "length (subslice data 44 108) = 64" using len by (simp add: subslice_def)
  have hd44: "subslice data 44 108 ! 0 = data ! 44" using len by (simp add: subslice_def)
  have nm: "Packet.SourceName p = takeWhile (\<lambda>b. b \<noteq> 0) (subslice data 44 108)"
    by (simp add: p extractFields_SourceName)
  have "data ! 44 = 0 \<Longrightarrow> Packet.SourceName p = []"
  proof -
    assume "data ! 44 = 0"
    then have "hd (subslice data 44 108) = 0" using hd44 l64
      by (cases "subslice data 44 108") simp_all
    then show ?thesis using l64 by (cases "subslice data 44 108") (simp_all add: nm)
  qed
  then show ?thesis using l64 nm by (simp add: takeWhile_all)
qed


lemma Parse_buildPacket:
  "Parse now (buildPacket name chans) = Inr (extractFields now (buildPacket name chans))"
proof -
  define nf where "nf = take 64 (name @ replicate 64 (0::byte))"
  have l: "length nf = 64"
    by (simp add: nf_def)
  have b: "buildPacket name chans =
     [0x00, 0x10, 0x00, 0x00] @ ACNPacketIdentifier @ [0x00, 0x00] @
     [0x00, 0x00, 0x00, 0x04] @ replicate 16 1 @ [0x00, 0x00] @
     [0x00, 0x00, 0x00, 0x02] @ nf @
     [100, 0x00, 0x00, 7, 0x00, 0x00, 0x01, 0x00, 0x00, 0x02] @
     replicate 7 0 @ [0x00] @ chans"
    by (simp add: buildPacket_def nf_def)
  show ?thesis
    unfolding b using l
    by (simp add: Parse_def E131HeaderSize_def subslice_def ACNPacketIdentifier_def
        Uint32_def E131RootVector_def E131FramingVector_def E131DMPVector_def nth_append)
qed

lemma name_field_buildPacket:
  "subslice (buildPacket name chans) 44 108 = take 64 (name @ replicate 64 0)"
  by (simp add: buildPacket_def subslice_def ACNPacketIdentifier_def)

theorem Parse_SourceName_witness:
  "Parse 5 (buildPacket [65, 66] [1, 2, 3]) = Inr (extractFields 5 (buildPacket [65, 66] [1, 2, 3])) \<and>
   Packet.SourceName (extractFields 5 (buildPacket [65, 66] [1, 2, 3])) = [65, 66] \<and>
   Parse 5 (buildPacket (replicate 64 65) []) = Inr (extractFields 5 (buildPacket (replicate 64 65) [])) \<and>
   0 \<notin> set (subslice (buildPacket (replicate 64 65) []) 44 108) \<and>
   Packet.SourceName (extractFields 5 (buildPacket (replicate 64 65) [])) = replicate 64 65 \<and>
   Parse 5 (buildPacket [] []) = Inr (extractFields 5 (buildPacket [] [])) \<and>
   buildPacket [] [] ! 44 = 0 \<and>
   Packet.SourceName (extractFields 5 (buildPacket [] [])) = []"
proof -
  have a: "Parse 5 (buildPacket [65, 66] [1, 2, 3]) = Inr (extractFields 5 (buildPacket [65, 66] [1, 2, 3]))"
    by (rule Parse_buildPacket)
  have b: "Parse 5 (buildPacket (replicate 64 65) []) = Inr (extractFields 5 (buildPacket (replicate 64 65) []))"
    by (rule Parse_buildPacket)
  have c: "Parse 5 (buildPacket [] []) = Inr (extractFields 5 (buildPacket [] []))"
    by (rule Parse_buildPacket)
  have nb: "0 \<notin> set (subslice (buildPacket (replicate 64 65) []) 44 108)"
    by (simp add: name_field_buildPacket)
  have zc: "buildPacket [] [] ! 44 = 0"
    by (simp add: buildPacket_def ACNPacketIdentifier_def nth_append)
  have ra: "Packet.SourceName (extractFields 5 (buildPacket [65, 66] [1, 2, 3])) = [65, 66]"
    using Parse_SourceName[OF a] by (simp add: name_field_buildPacket)
  have rb: "Packet.SourceName (extractFields 5 (buildPacket (replicate 64 65) [])) = replicate 64 65"
    using Parse_SourceName[OF b] nb by (simp add: name_field_buildPacket)
  have rc: "Packet.SourceName (extractFields 5 (buildPacket [] [])) = []"
    using Parse_SourceName[OF c] zc by blast
  show ?thesis using a b c nb zc ra rb rc by simp
qed

text \<open>
  Claim C6. For every input that passes the header validations, the channel data is the
  bytes from offset 126 on, clamped to 512 bytes, so its length is \<open>min L 512\<close> for \<open>L\<close>
  bytes past the header; an input of exactly 126 bytes decodes to empty channel data, and
  the header of an accepted input, taken alone, still decodes.
\<close>

theorem Parse_ChannelData:
  "Parse now data = Inr p \<Longrightarrow>
     ChannelData p = take 512 (drop 126 data) \<and>
     length (ChannelData p) = min (length data - 126) 512 \<and>
     (length data = 126 \<longrightarrow> ChannelData p = []) \<and>
     (\<exists>q. Parse now (take 126 data) = Inr q \<and> ChannelData q = [])"
proof -
  assume a: "Parse now data = Inr p"
  then have p: "p = extractFields now data" and len: "126 \<le> length data"
    using Parse_Inr by blast+
  have cd: "ChannelData p = take 512 (drop 126 data)"
    using len by (simp add: p extractFields_def Let_def E131HeaderSize_def E131MaxChannels_def subslice_def)
  have "ChannelData (extractFields now (take 126 data)) = []"
    by (simp add: extractFields_def Let_def E131HeaderSize_def)
  then have "\<exists>q. Parse now (take 126 data) = Inr q \<and> ChannelData q = []"
    using Parse_take[OF a] by simp
  then show ?thesis using cd len by (simp add: min_def)
qed

theorem Parse_ChannelData_witness:
  "Parse 5 (buildPacket [65, 66] (replicate 600 9)) = Inr (extractFields 5 (buildPacket [65, 66] (replicate 600 9))) \<and>
   ChannelData (extractFields 5 (buildPacket [65, 66] (replicate 600 9))) = replicate 512 9 \<and>
   length (buildPacket [65, 66] []) = 126 \<and>
   Parse 5 (buildPacket [65, 66] []) = Inr (extractFields 5 (buildPacket [65, 66] [])) \<and>
   ChannelData (extractFields 5 (buildPacket [65, 66] [])) = []"
proof -
  have a: "Parse 5 (buildPacket [65, 66] (replicate 600 9)) = Inr (extractFields 5 (buildPacket [65, 66] (replicate 600 9)))"
    by (rule Parse_buildPacket)
  have b: "Parse 5 (buildPacket [65, 66] []) = Inr (extractFields 5 (buildPacket [65, 66] []))"
    by (rule Parse_buildPacket)
  have l: "length (buildPacket [65, 66] []) = 126"
    by (simp add: buildPacket_def ACNPacketIdentifier_def)
  have ra: "ChannelData (extractFields 5 (buildPacket [65, 66] (replicate 600 9))) = replicate 512 9"
    using Parse_ChannelData[OF a] by (simp add: buildPacket_def ACNPacketIdentifier_def)
  have rb: "ChannelData (extractFields 5 (buildPacket [65, 66] [])) = []"
    using Parse_ChannelData[OF b] l by simp
  show ?thesis using a b l ra rb by simp
qed

text \<open>
  Claim C7. Every buffer shorter than 126 bytes fails with the too-short error, whatever
  its content: the length check is the first one \<open>Parse\<close> makes.
\<close>

theorem Parse_TooShort:
  "length data < 126 \<Longrightarrow> Parse now data = Inl (NewParseError ''packet too short'' 0)"
  by (simp add: Parse_def E131HeaderSize_def)

theorem Parse_TooShort_witness:
  "length (take 125 (buildPacket [65, 66] [])) < 126 \<and>
   Parse 5 (take 125 (buildPacket [65, 66] [])) = Inl \<lparr>Message = ''packet too short'', Offset = 0\<rparr>"
proof -
  have l: "length (take 125 (buildPacket [65, 66] [])) < 126" by simp
  show ?thesis using l Parse_TooShort[OF l, of 5] by (simp add: NewParseError_def)
qed

section \<open>Properties of the universe state\<close>

declare updateChannels.simps [simp del]

lemma Channel_overwrite:
  "ch\<lparr>Value := v, Active := a, LastUpdate := t\<rparr> = \<lparr>Value = v, Active = a, LastUpdate = t\<rparr>"
  by (cases ch) simp

lemma length_updateChannels: "length (updateChannels i cd now chs) = length chs"
proof (induction i cd now chs rule: updateChannels.induct)
  case (1 i cd now chs)
  show ?case
  proof (cases "i < length cd \<and> i < 512")
    case True
    then show ?thesis using 1 by (subst updateChannels.simps) simp
  next
    case False
    then show ?thesis by (subst updateChannels.simps) auto
  qed
qed

lemma nth_updateChannels:
  "j < length chs \<Longrightarrow>
   updateChannels i cd now chs ! j =
     (if i \<le> j \<and> j < length cd \<and> j < 512
      then \<lparr>Value = cd ! j, Active = True, LastUpdate = now\<rparr> else chs ! j)"
proof (induction i cd now chs rule: updateChannels.induct)
  case (1 i cd now chs)
  show ?case
  proof (cases "i < length cd \<and> i < 512")
    case True
    have eq: "\<not> Suc i \<le> j \<Longrightarrow> i \<le> j \<Longrightarrow> j = i" by arith
    from True show ?thesis using 1
      by (subst updateChannels.simps) (auto simp: nth_list_update Channel_overwrite dest: eq)
  next
    case False
    then show ?thesis by (subst updateChannels.simps) auto
  qed
qed

text \<open>
  Claim C8. An update with channel data of length \<open>n\<close> sets the value, the active flag
  and the update time of exactly the channels \<open>i\<close> with \<open>i < n\<close> and \<open>i < 512\<close>, and leaves
  every other channel as it was; so a channel that is active stays active under any
  update. The 512 channels are the fixed array of the universe.
\<close>

theorem Update_channels:
  "length (Channels u) = 512 \<Longrightarrow>
     length (Channels (Update now cd name c prio sq u)) = 512 \<and>
     (\<forall>i<512. Channels (Update now cd name c prio sq u) ! i =
        (if i < length cd then \<lparr>Value = cd ! i, Active = True, LastUpdate = now\<rparr>
         else Channels u ! i)) \<and>
     (\<forall>i<512. Active (Channels u ! i) \<longrightarrow> Active (Channels (Update now cd name c prio sq u) ! i))"
  by (simp add: Update_def Let_def length_updateChannels nth_updateChannels)

lemma length_NewUniverse: "length (Channels (NewUniverse uid)) = 512"
  by (simp add: NewUniverse_def)

theorem Update_channels_witness:
  "length (Channels (Update 7 [9] [] [] 0 0 (NewUniverse 1))) = 512 \<and>
   Channels (Update 8 [5, 6] [] [] 0 1 (Update 7 [1, 2, 3] [] [] 0 0 (NewUniverse 1))) ! 1 = \<lparr>Value = 6, Active = True, LastUpdate = 8\<rparr> \<and>
   Channels (Update 8 [5, 6] [] [] 0 1 (Update 7 [1, 2, 3] [] [] 0 0 (NewUniverse 1))) ! 2 = \<lparr>Value = 3, Active = True, LastUpdate = 7\<rparr> \<and>
   Channels (Update 8 [5, 6] [] [] 0 1 (Update 7 [1, 2, 3] [] [] 0 0 (NewUniverse 1))) ! 3 = \<lparr>Value = 0, Active = False, LastUpdate = 0\<rparr>"
proof -
  have l0: "length (Channels (NewUniverse 1)) = 512" by (rule length_NewUniverse)
  note a = Update_channels[OF l0, of 7 "[1, 2, 3]" "[]" "[]" 0 0]
  from a have l1: "length (Channels (Update 7 [1, 2, 3] [] [] 0 0 (NewUniverse 1))) = 512" by blast
  note b = Update_channels[OF l1, of 8 "[5, 6]" "[]" "[]" 0 1]
  have c: "length (Channels (Update 7 [9] [] [] 0 0 (NewUniverse 1))) = 512"
    using Update_channels[OF l0, of 7 "[9]" "[]" "[]" 0 0] by blast
  have a2: "Channels (Update 7 [1, 2, 3] [] [] 0 0 (NewUniverse 1)) ! 2 = \<lparr>Value = 3, Active = True, LastUpdate = 7\<rparr>"
    using a by simp
  have a3: "Channels (Update 7 [1, 2, 3] [] [] 0 0 (NewUniverse 1)) ! 3 = \<lparr>Value = 0, Active = False, LastUpdate = 0\<rparr>"
    using a by (simp add: NewUniverse_def)
  show ?thesis using b c a2 a3 by simp
qed

section \<open>Properties of the manager\<close>

lemma delete_filter: "AList.delete k us = filter (\<lambda>e. fst e \<noteq> k) us"
  by (induction us) auto

lemma pruneLoop_eq:
  "pruneLoop clock timeout h es (us, n) =
     (filter (\<lambda>e. fst e \<notin> fst ` set (filter (staleEntry clock timeout h) es)) us,
      n + length (filter (staleEntry clock timeout h) es))"
proof (induction es arbitrary: us n)
  case Nil
  then show ?case by simp
next
  case (Cons e es)
  obtain k u where e: "e = (k, u)" by (cases e)
  show ?case
  proof (cases "IsStale (clock k) timeout (h ! u)")
    case True
    have "filter (\<lambda>e. fst e \<notin> fst ` set (filter (staleEntry clock timeout h) es)) (filter (\<lambda>e. fst e \<noteq> k) us)
        = filter (\<lambda>e. fst e \<notin> insert k (fst ` set (filter (staleEntry clock timeout h) es))) us"
      by (induction us) auto
    then show ?thesis using True by (simp add: e Cons.IH staleEntry_def delete_filter)
  next
    case False
    then show ?thesis by (simp add: e Cons.IH staleEntry_def)
  qed
qed

lemma filter_stale_keys:
  "distinct (map fst us) \<Longrightarrow>
   filter (\<lambda>e. fst e \<notin> fst ` set (filter P us)) us = filter (\<lambda>e. \<not> P e) us"
proof -
  assume d: "distinct (map fst us)"
  have "\<And>e. e \<in> set us \<Longrightarrow> (fst e \<notin> fst ` set (filter P us)) = (\<not> P e)"
  proof -
    fix e assume e: "e \<in> set us"
    show "(fst e \<notin> fst ` set (filter P us)) = (\<not> P e)"
    proof
      assume "fst e \<notin> fst ` set (filter P us)"
      then show "\<not> P e" using e by force
    next
      assume np: "\<not> P e"
      show "fst e \<notin> fst ` set (filter P us)"
      proof
        assume "fst e \<in> fst ` set (filter P us)"
        then obtain e' where e': "e' \<in> set us" "P e'" "fst e' = fst e" by auto
        then have "e' = e" using d e by (metis eq_key_imp_eq_value prod.collapse)
        then show False using e' np by simp
      qed
    qed
  qed
  then show ?thesis by (simp cong: filter_cong)
qed

lemma IsStale_iff:
  "IsStale now timeout u \<longleftrightarrow>
     Universe.LastPacket u = 0 \<or> Since now (Universe.LastPacket u) > timeout"
  by (simp add: IsStale_def IsZero_def)

text \<open>
  Claim C4. For every timeout, a universe that has never received a packet is stale; and
  \<open>PruneStale\<close> deletes exactly the universes whose last-packet time was never set or is
  older than the timeout at the moment the universe is examined, and returns how many it
  deleted. The keys of the map are distinct, as in any Go map.
\<close>

theorem PruneStale_exact:
  "(\<forall>now timeout uid. IsStale now timeout (NewUniverse uid)) \<and>
   (\<forall>now timeout u. Universe.PacketCount u = 0 \<and> Universe.LastPacket u = 0 \<longrightarrow> IsStale now timeout u) \<and>
   (distinct (map fst (Manager.universes m)) \<longrightarrow>
      PruneStale clock timeout (m, h) =
        (length (filter (\<lambda>(uid, u). Universe.LastPacket (h ! u) = 0 \<or>
                      Since (clock uid) (Universe.LastPacket (h ! u)) > timeout) (Manager.universes m)),
         m\<lparr>Manager.universes := filter (\<lambda>(uid, u). \<not> (Universe.LastPacket (h ! u) = 0 \<or>
                      Since (clock uid) (Universe.LastPacket (h ! u)) > timeout)) (Manager.universes m)\<rparr>))"
proof -
  have a: "\<forall>now timeout uid. IsStale now timeout (NewUniverse uid)"
    by (simp add: IsStale_def IsZero_def NewUniverse_def)
  have b: "\<forall>now timeout u. Universe.PacketCount u = 0 \<and> Universe.LastPacket u = 0 \<longrightarrow> IsStale now timeout u"
    by (simp add: IsStale_def IsZero_def)
  have f1: "filter (staleEntry clock timeout h) us =
      filter (\<lambda>(uid, u). Universe.LastPacket (h ! u) = 0 \<or>
                      Since (clock uid) (Universe.LastPacket (h ! u)) > timeout) us" for us
    by (rule filter_cong) (auto simp: staleEntry_def IsStale_iff)
  have f2: "filter (\<lambda>e. \<not> staleEntry clock timeout h e) us =
      filter (\<lambda>(uid, u). \<not> (Universe.LastPacket (h ! u) = 0 \<or>
                      Since (clock uid) (Universe.LastPacket (h ! u)) > timeout)) us" for us
    by (rule filter_cong) (auto simp: staleEntry_def IsStale_iff)
  have c: "distinct (map fst (Manager.universes m)) \<longrightarrow>
      PruneStale clock timeout (m, h) =
        (length (filter (staleEntry clock timeout h) (Manager.universes m)),
         m\<lparr>Manager.universes := filter (\<lambda>e. \<not> staleEntry clock timeout h e) (Manager.universes m)\<rparr>)"
  proof
    assume d: "distinct (map fst (Manager.universes m))"
    show "PruneStale clock timeout (m, h) =
        (length (filter (staleEntry clock timeout h) (Manager.universes m)),
         m\<lparr>Manager.universes := filter (\<lambda>e. \<not> staleEntry clock timeout h e) (Manager.universes m)\<rparr>)"
      by (simp add: PruneStale_def pruneLoop_eq filter_stale_keys[OF d] del: set_filter)
  qed
  from c have c': "distinct (map fst (Manager.universes m)) \<longrightarrow>
      PruneStale clock timeout (m, h) =
        (length (filter (\<lambda>(uid, u). Universe.LastPacket (h ! u) = 0 \<or>
                      Since (clock uid) (Universe.LastPacket (h ! u)) > timeout) (Manager.universes m)),
         m\<lparr>Manager.universes := filter (\<lambda>(uid, u). \<not> (Universe.LastPacket (h ! u) = 0 \<or>
                      Since (clock uid) (Universe.LastPacket (h ! u)) > timeout)) (Manager.universes m)\<rparr>)"
    by (simp only: f1 f2)
  show ?thesis using a b c' by blast
qed

theorem PruneStale_exact_witness:
  "Universe.PacketCount (NewUniverse 2) = 0 \<and> Universe.LastPacket (NewUniverse 2) = 0 \<and>
   IsStale 2000 (3600 * Second) (NewUniverse 2) \<and>
   distinct (map fst (Manager.universes \<lparr>Manager.universes = [(1, 0), (2, 1)]\<rparr>)) \<and>
   PruneStale (\<lambda>uid. 2000) (3600 * Second)
     (\<lparr>Manager.universes = [(1, 0), (2, 1)]\<rparr>,
      [Update 1900 [255] [] [] 100 1 (NewUniverse 1), NewUniverse 2]) =
     (1, \<lparr>Manager.universes = [(1, 0)]\<rparr>)"
proof -
  have z: "Universe.PacketCount (NewUniverse 2) = 0 \<and> Universe.LastPacket (NewUniverse 2) = 0"
    by (simp add: NewUniverse_def)
  have d: "distinct (map fst (Manager.universes \<lparr>Manager.universes = [(1, 0), (2, 1)]\<rparr>))"
    by simp
  note t = PruneStale_exact[of "\<lparr>Manager.universes = [(1, 0), (2, 1)]\<rparr>" "\<lambda>uid. 2000"
      "3600 * Second" "[Update 1900 [255] [] [] 100 1 (NewUniverse 1), NewUniverse 2]"]
  have s: "IsStale 2000 (3600 * Second) (NewUniverse 2)"
    using t z by blast
  have p: "PruneStale (\<lambda>uid. 2000) (3600 * Second)
     (\<lparr>Manager.universes = [(1, 0), (2, 1)]\<rparr>,
      [Update 1900 [255] [] [] 100 1 (NewUniverse 1), NewUniverse 2]) =
     (1, \<lparr>Manager.universes = [(1, 0)]\<rparr>)"
    using t d
    by (simp add: Update_def Let_def NewUniverse_def Since_def Sub_def Second_def
        maxDuration_def minDuration_def)
  show ?thesis using z d s p by blast
qed

section \<open>Properties of the tracker\<close>

lemma expectedSeq_unat:
  "unat (word_of_int ((uint (l :: byte) + 1) mod 256) :: byte) = specExpected l"
proof -
  have "take_bit 8 ((uint l + 1) mod 256) = take_bit 8 (uint l + 1)"
    by (simp add: take_bit_eq_mod)
  then have "(word_of_int ((uint l + 1) mod 256) :: byte) = word_of_int (uint l + 1)"
    by (subst word_of_int_eq_iff) simp
  also have "\<dots> = l + 1"
    by simp
  finally have "unat (word_of_int ((uint l + 1) mod 256) :: byte) = unat (l + 1)"
    by simp
  then show ?thesis
    by (simp add: specExpected_def unat_word_ariths)
qed

lemma specExpected_lt: "specExpected l < 256"
  by (simp add: specExpected_def)

lemma unat_byte_lt: "unat (b :: byte) < 256"
  using unsigned_less[of b, where 'a=nat] by simp


lemma checkLoss_eq:
  "checkLoss ex sq src st =
     (let d = (if ex \<and> Source.PacketCount src \<noteq> 0 \<and> unat sq \<noteq> specExpected (Source.LastSequence src) \<and>
                  specForwardGap (specExpected (Source.LastSequence src)) sq < 200
               then of_nat (specForwardGap (specExpected (Source.LastSequence src)) sq) else 0)
      in (d, src\<lparr>Source.LostPackets := Source.LostPackets src + d\<rparr>,
          st\<lparr>UniverseStats.LostPackets := UniverseStats.LostPackets st + d\<rparr>))"
proof -
  define e :: byte where "e = word_of_int ((uint (Source.LastSequence src) + 1) mod 256)"
  have ue: "unat e = specExpected (Source.LastSequence src)"
    by (simp add: e_def expectedSeq_unat)
  have ne: "(sq \<noteq> e) = (unat sq \<noteq> specExpected (Source.LastSequence src))"
    using ue by (metis word_unat_eq_iff)
  have gt: "(sq > e) = (unat sq > specExpected (Source.LastSequence src))"
    using ue by (simp add: word_less_nat_alt)
  have pc: "(Source.PacketCount src > 0) = (Source.PacketCount src \<noteq> 0)"
    by (simp add: word_greater_zero_iff)
  have ue': "uint e = int (specExpected (Source.LastSequence src))"
    using ue by (metis uint_nat)
  have gap: "int (specForwardGap k sq) =
      (if int k < uint sq then uint sq - int k else 256 - int k + uint sq)" if "k < 256" for k
  proof (cases "k < unat sq")
    case True
    then have "int k < uint sq" by (metis uint_nat of_nat_less_iff)
    moreover have "int (unat sq - k) = uint sq - int k"
      using True by (metis uint_nat of_nat_diff less_imp_le)
    ultimately show ?thesis using True by (simp add: specForwardGap_def)
  next
    case False
    then have "\<not> int k < uint sq" by (metis uint_nat of_nat_less_iff)
    moreover have "int (256 - k + unat sq) = 256 - int k + uint sq"
      using that by (metis uint_nat of_nat_add of_nat_diff less_imp_le of_nat_numeral)
    ultimately show ?thesis using False by (simp add: specForwardGap_def)
  qed
  have lost: "(if sq > e then uint sq - uint e else 256 - uint e + uint sq) =
      int (specForwardGap (specExpected (Source.LastSequence src)) sq)"
    using gap[OF specExpected_lt[of "Source.LastSequence src"]] gt ue'
    by (metis of_nat_less_iff uint_nat)
  show ?thesis
    unfolding checkLoss_def e_def[symmetric] Let_def pc ne lost sourceRestartThreshold_def
    by simp
qed


lemma checkLoss_specLoss:
  "checkLoss (map_of srcs c \<noteq> None) sq
      (case map_of srcs c of Some source \<Rightarrow> source
       | None \<Rightarrow> \<lparr>CID = c, Name = name, LastSequence = 0, LastSeen = 0,
                  Source.PacketCount = 0, Source.LostPackets = 0\<rparr>) st =
   (of_nat (specLoss (map_of srcs c) sq),
    (case map_of srcs c of Some source \<Rightarrow> source
       | None \<Rightarrow> \<lparr>CID = c, Name = name, LastSequence = 0, LastSeen = 0,
                  Source.PacketCount = 0, Source.LostPackets = 0\<rparr>)
      \<lparr>Source.LostPackets :=
         Source.LostPackets (case map_of srcs c of Some source \<Rightarrow> source
           | None \<Rightarrow> \<lparr>CID = c, Name = name, LastSequence = 0, LastSeen = 0,
                  Source.PacketCount = 0, Source.LostPackets = 0\<rparr>) + of_nat (specLoss (map_of srcs c) sq)\<rparr>,
    st\<lparr>UniverseStats.LostPackets := UniverseStats.LostPackets st + of_nat (specLoss (map_of srcs c) sq)\<rparr>)"
  by (cases "map_of srcs c") (simp_all add: checkLoss_eq specLoss_def Let_def)

lemma recordLocked_LostPackets:
  "UniverseStats.LostPackets (recordLocked now w c name sq st) =
     UniverseStats.LostPackets st + of_nat (specLoss (map_of (Sources st) c) sq)"
  by (simp add: recordLocked_def Let_def checkLoss_specLoss del: not_None_eq)


lemma recordLocked_source:
  "map_of (Sources (recordLocked now w c name sq st)) c =
     Some ((case map_of (Sources st) c of Some source \<Rightarrow> source
            | None \<Rightarrow> \<lparr>CID = c, Name = name, LastSequence = 0, LastSeen = 0,
                  Source.PacketCount = 0, Source.LostPackets = 0\<rparr>)
       \<lparr>Source.LostPackets :=
         Source.LostPackets (case map_of (Sources st) c of Some source \<Rightarrow> source
           | None \<Rightarrow> \<lparr>CID = c, Name = name, LastSequence = 0, LastSeen = 0,
                  Source.PacketCount = 0, Source.LostPackets = 0\<rparr>) + of_nat (specLoss (map_of (Sources st) c) sq),
        Source.LastSequence := sq, Source.LastSeen := now,
        Source.PacketCount := Source.PacketCount (case map_of (Sources st) c of Some source \<Rightarrow> source
           | None \<Rightarrow> \<lparr>CID = c, Name = name, LastSequence = 0, LastSeen = 0,
                  Source.PacketCount = 0, Source.LostPackets = 0\<rparr>) + 1,
        Source.Name := name\<rparr>)"
  by (simp add: recordLocked_def Let_def checkLoss_specLoss update_conv' del: not_None_eq)

lemma recordLocked_other:
  "c' \<noteq> c \<Longrightarrow> map_of (Sources (recordLocked now w c name sq st)) c' = map_of (Sources st) c'"
  by (simp add: recordLocked_def Let_def checkLoss_specLoss update_conv' del: not_None_eq)


lemma valid_lookup:
  "validTracker (t, h) \<Longrightarrow> GetUniverseStats u t = Some p \<Longrightarrow> p < length h"
proof -
  assume v: "validTracker (t, h)" and g: "GetUniverseStats u t = Some p"
  from g have "(u, p) \<in> set (Tracker.universes t)"
    by (simp add: GetUniverseStats_def map_of_SomeD)
  with v show ?thesis
    by (fastforce simp: validTracker_def list_all_iff)
qed

lemma RecordPacket_existing:
  "GetUniverseStats u t = Some p \<Longrightarrow>
   RecordPacket now u c name sq (t, h) =
     (t, h[p := recordLocked now (rateWindow t) c name sq (h ! p)])"
  by (simp add: RecordPacket_def GetUniverseStats_def)

lemma RecordPacket_new:
  "GetUniverseStats u t = None \<Longrightarrow>
   RecordPacket now u c name sq (t, h) =
     (t\<lparr>Tracker.universes := AList.update u (length h) (Tracker.universes t)\<rparr>,
      h @ [recordLocked now (rateWindow t) c name sq
             \<lparr>UniverseID = u, Sources = [], PacketCount = 0, LostPackets = 0,
              LastPacket = 0, packetsInWindow = [], lossWindow = []\<rparr>])"
  by (simp add: RecordPacket_def GetUniverseStats_def Let_def)

lemma validTracker_New: "validTracker (NewTracker, [])"
  by (simp add: validTracker_def NewTracker_def)

lemma alist_update_fresh:
  "map_of al k = None \<Longrightarrow> AList.update k v al = al @ [(k, v)]"
  by (induction al) (auto split: if_splits)

lemma validTracker_RecordPacket:
  "validTracker s \<Longrightarrow> validTracker (RecordPacket now u c name sq s)"
proof -
  assume v: "validTracker s"
  obtain t h where s: "s = (t, h)" by (cases s)
  show ?thesis
  proof (cases "GetUniverseStats u t")
    case None
    then have upd: "AList.update u (length h) (Tracker.universes t) =
        Tracker.universes t @ [(u, length h)]"
      by (simp add: GetUniverseStats_def alist_update_fresh)
    have "length h \<notin> snd ` set (Tracker.universes t)"
      using v by (fastforce simp: s validTracker_def list_all_iff)
    then show ?thesis using v None
      by (auto simp: s RecordPacket_new validTracker_def list_all_iff less_Suc_eq upd)
  next
    case (Some p)
    then show ?thesis using v by (simp add: s RecordPacket_existing validTracker_def)
  qed
qed

lemma valid_lookup_inj:
  "validTracker (t, h) \<Longrightarrow> GetUniverseStats u t = Some p \<Longrightarrow>
   GetUniverseStats u' t = Some p' \<Longrightarrow> u' \<noteq> u \<Longrightarrow> p' \<noteq> p"
proof -
  assume v: "validTracker (t, h)" and g: "GetUniverseStats u t = Some p"
    and g': "GetUniverseStats u' t = Some p'" and ne: "u' \<noteq> u"
  have m: "(u, p) \<in> set (Tracker.universes t)" "(u', p') \<in> set (Tracker.universes t)"
    using g g' by (simp_all add: GetUniverseStats_def map_of_SomeD)
  have d: "distinct (map snd (Tracker.universes t))"
    using v by (simp add: validTracker_def)
  show ?thesis
  proof
    assume "p' = p"
    then have "(u, p) = (u', p)"
      using m d by (metis eq_key_imp_eq_value distinct_map inj_on_def prod.collapse snd_conv)
    then show False using ne by simp
  qed
qed

lemma universeLost_RecordPacket:
  "validTracker s \<Longrightarrow>
   universeLost u (RecordPacket now u c name sq s) =
     universeLost u s + of_nat (specLoss (findSource u c s) sq)"
proof -
  assume v: "validTracker s"
  obtain t h where s: "s = (t, h)" by (cases s)
  show ?thesis
  proof (cases "GetUniverseStats u t")
    case None
    then show ?thesis
      by (simp add: s RecordPacket_new universeLost_def findSource_def GetUniverseStats_def
          update_conv' recordLocked_LostPackets specLoss_def)
  next
    case (Some p)
    then have "p < length h" using v s valid_lookup by blast
    then show ?thesis using Some
      by (simp add: s RecordPacket_existing universeLost_def findSource_def
          recordLocked_LostPackets)
  qed
qed

lemma findSource_RecordPacket:
  "validTracker s \<Longrightarrow>
   findSource u c (RecordPacket now u c name sq s) =
     Some ((case findSource u c s of Some source \<Rightarrow> source
            | None \<Rightarrow> \<lparr>CID = c, Name = name, LastSequence = 0, LastSeen = 0,
                  Source.PacketCount = 0, Source.LostPackets = 0\<rparr>)
       \<lparr>Source.LostPackets :=
         Source.LostPackets (case findSource u c s of Some source \<Rightarrow> source
           | None \<Rightarrow> \<lparr>CID = c, Name = name, LastSequence = 0, LastSeen = 0,
                  Source.PacketCount = 0, Source.LostPackets = 0\<rparr>) + of_nat (specLoss (findSource u c s) sq),
        Source.LastSequence := sq, Source.LastSeen := now,
        Source.PacketCount := Source.PacketCount (case findSource u c s of Some source \<Rightarrow> source
           | None \<Rightarrow> \<lparr>CID = c, Name = name, LastSequence = 0, LastSeen = 0,
                  Source.PacketCount = 0, Source.LostPackets = 0\<rparr>) + 1,
        Source.Name := name\<rparr>)"
proof -
  assume v: "validTracker s"
  obtain t h where s: "s = (t, h)" by (cases s)
  show ?thesis
  proof (cases "GetUniverseStats u t")
    case None
    then show ?thesis
      by (simp add: s RecordPacket_new findSource_def GetUniverseStats_def
          update_conv' recordLocked_source)
  next
    case (Some p)
    then have "p < length h" using v s valid_lookup by blast
    then show ?thesis using Some
      by (simp add: s RecordPacket_existing findSource_def recordLocked_source)
  qed
qed

lemma findSource_RecordPacket_other:
  "validTracker s \<Longrightarrow> c' \<noteq> c \<Longrightarrow>
   findSource u c' (RecordPacket now u c name sq s) = findSource u c' s"
proof -
  assume v: "validTracker s" and ne: "c' \<noteq> c"
  obtain t h where s: "s = (t, h)" by (cases s)
  show ?thesis
  proof (cases "GetUniverseStats u t")
    case None
    then show ?thesis using ne
      by (simp add: s RecordPacket_new findSource_def GetUniverseStats_def
          update_conv' recordLocked_other)
  next
    case (Some p)
    then have "p < length h" using v s valid_lookup by blast
    then show ?thesis using Some ne
      by (simp add: s RecordPacket_existing findSource_def recordLocked_other)
  qed
qed


lemma findSource_New: "findSource u c (NewTracker, []) = None"
  by (simp add: findSource_def GetUniverseStats_def NewTracker_def)

lemma universeLost_New: "universeLost u (NewTracker, []) = 0"
  by (simp add: universeLost_def GetUniverseStats_def NewTracker_def)

lemma sourceLost_RecordPacket:
  "validTracker s \<Longrightarrow>
   sourceLost u c (RecordPacket now u c name sq s) =
     sourceLost u c s + of_nat (specLoss (findSource u c s) sq)"
  by (cases "findSource u c s") (simp_all add: sourceLost_def findSource_RecordPacket)

lemma sourceLost_RecordPacket_other:
  "validTracker s \<Longrightarrow> c' \<noteq> c \<Longrightarrow>
   sourceLost u c' (RecordPacket now u c name sq s) = sourceLost u c' s"
  by (simp add: sourceLost_def findSource_RecordPacket_other)

lemma first_then:
  "findSource u c (RecordPacket now1 u c name sq1 (NewTracker, [])) =
     Some \<lparr>CID = c, Name = name, LastSequence = sq1, LastSeen = now1,
           Source.PacketCount = 1, Source.LostPackets = 0\<rparr> \<and>
   universeLost u (RecordPacket now1 u c name sq1 (NewTracker, [])) = 0 \<and>
   sourceLost u c (RecordPacket now1 u c name sq1 (NewTracker, [])) = 0 \<and>
   validTracker (RecordPacket now1 u c name sq1 (NewTracker, []))"
  by (simp add: findSource_RecordPacket universeLost_RecordPacket sourceLost_RecordPacket
      validTracker_RecordPacket validTracker_New findSource_New universeLost_New
      specLoss_def sourceLost_def)

lemma second_lost:
  "universeLost u (RecordPacket now2 u c name sq2 (RecordPacket now1 u c name sq1 (NewTracker, []))) =
     of_nat (specLoss (Some \<lparr>CID = c, Name = name, LastSequence = sq1, LastSeen = now1,
           Source.PacketCount = 1, Source.LostPackets = 0\<rparr>) sq2) \<and>
   sourceLost u c (RecordPacket now2 u c name sq2 (RecordPacket now1 u c name sq1 (NewTracker, []))) =
     of_nat (specLoss (Some \<lparr>CID = c, Name = name, LastSequence = sq1, LastSeen = now1,
           Source.PacketCount = 1, Source.LostPackets = 0\<rparr>) sq2)"
  using first_then[of u c now1 name sq1]
  by (simp add: universeLost_RecordPacket sourceLost_RecordPacket)

text \<open>
  Claim C1. For a packet that is not the source's first, when the forward gap from the
  expected sequence number is at least 200 the call records no loss: neither the
  universe's nor the source's lost counter changes, while the source's last sequence,
  last-seen time, packet count and name are still updated. In particular recording
  sequence 100 and then 50 (a forward gap of 205 from the expected 101) leaves both lost
  counters at 0.
\<close>

theorem RecordPacket_restart:
  "validTracker s \<Longrightarrow> findSource u c s = Some src \<Longrightarrow> Source.PacketCount src \<noteq> 0 \<Longrightarrow>
   200 \<le> specForwardGap (specExpected (Source.LastSequence src)) sq \<Longrightarrow>
     universeLost u (RecordPacket now u c name sq s) = universeLost u s \<and>
     sourceLost u c (RecordPacket now u c name sq s) = sourceLost u c s \<and>
     findSource u c (RecordPacket now u c name sq s) =
       Some (src\<lparr>Source.LastSequence := sq, Source.LastSeen := now,
                 Source.PacketCount := Source.PacketCount src + 1, Source.Name := name\<rparr>) \<and>
     specForwardGap (specExpected 100) 50 = 205 \<and>
     universeLost u' (RecordPacket now2 u' c' name' 50
        (RecordPacket now1 u' c' name' 100 (NewTracker, []))) = 0 \<and>
     sourceLost u' c' (RecordPacket now2 u' c' name' 50
        (RecordPacket now1 u' c' name' 100 (NewTracker, []))) = 0"
proof -
  assume v: "validTracker s" and f: "findSource u c s = Some src"
    and pc: "Source.PacketCount src \<noteq> 0"
    and gap: "200 \<le> specForwardGap (specExpected (Source.LastSequence src)) sq"
  have z: "specLoss (findSource u c s) sq = 0"
    using pc gap by (simp add: f specLoss_def)
  have g: "specForwardGap (specExpected 100) 50 = 205"
    by (simp add: specForwardGap_def specExpected_def)
  have a: "universeLost u (RecordPacket now u c name sq s) = universeLost u s"
    using v z by (simp add: universeLost_RecordPacket)
  have b: "sourceLost u c (RecordPacket now u c name sq s) = sourceLost u c s"
    using v z by (simp add: sourceLost_RecordPacket)
  have c: "findSource u c (RecordPacket now u c name sq s) =
       Some (src\<lparr>Source.LastSequence := sq, Source.LastSeen := now,
                 Source.PacketCount := Source.PacketCount src + 1, Source.Name := name\<rparr>)"
    using v z f by (simp add: findSource_RecordPacket)
  have d: "universeLost u' (RecordPacket now2 u' c' name' 50
        (RecordPacket now1 u' c' name' 100 (NewTracker, []))) = 0 \<and>
     sourceLost u' c' (RecordPacket now2 u' c' name' 50
        (RecordPacket now1 u' c' name' 100 (NewTracker, []))) = 0"
    using second_lost[of u' now2 c' name' 50 now1 100]
    by (simp add: specLoss_def specForwardGap_def specExpected_def)
  show ?thesis using a b c d g by simp
qed


theorem RecordPacket_restart_witness:
  "validTracker (RecordPacket 1000 1 [1] [65] 100 (NewTracker, [])) \<and>
   findSource 1 [1] (RecordPacket 1000 1 [1] [65] 100 (NewTracker, [])) =
     Some \<lparr>CID = [1], Name = [65], LastSequence = 100, LastSeen = 1000,
           Source.PacketCount = 1, Source.LostPackets = 0\<rparr> \<and>
   200 \<le> specForwardGap (specExpected 100) 50 \<and>
   universeLost 1 (RecordPacket 2000 1 [1] [66] 50
      (RecordPacket 1000 1 [1] [65] 100 (NewTracker, []))) = 0 \<and>
   findSource 1 [1] (RecordPacket 2000 1 [1] [66] 50
      (RecordPacket 1000 1 [1] [65] 100 (NewTracker, []))) =
     Some \<lparr>CID = [1], Name = [66], LastSequence = 50, LastSeen = 2000,
           Source.PacketCount = 2, Source.LostPackets = 0\<rparr>"
proof -
  let ?s = "RecordPacket 1000 1 [1] [65] 100 (NewTracker, [])"
  let ?src = "\<lparr>CID = [1], Name = [65], LastSequence = 100, LastSeen = 1000,
           Source.PacketCount = 1, Source.LostPackets = 0\<rparr>"
  have v: "validTracker ?s" and f: "findSource 1 [1] ?s = Some ?src"
    and l: "universeLost 1 ?s = 0"
    using first_then[of 1 "[1]" 1000 "[65]" 100] by simp_all
  have pc: "Source.PacketCount ?src \<noteq> 0" by simp
  have g: "200 \<le> specForwardGap (specExpected (Source.LastSequence ?src)) 50"
    by (simp add: specForwardGap_def specExpected_def)
  note t = RecordPacket_restart[OF v f pc g, of 2000 "[66]"]
  show ?thesis using t v f g l by simp
qed

lemma specForwardGap_range:
  "unat sq \<noteq> specExpected l \<Longrightarrow>
   1 \<le> specForwardGap (specExpected l) sq \<and> specForwardGap (specExpected l) sq \<le> 255"
  using specExpected_lt[of l] unat_byte_lt[of sq] by (auto simp: specForwardGap_def)

text \<open>
  Claim C2. For a packet that is not the source's first, with the expected sequence
  number \<open>(lastSequence + 1) mod 256\<close>: when the packet is the expected one no loss is
  recorded; otherwise the forward gap lies between 1 and 255, and when it is below 200
  exactly that many packets are added to the lost counters of the universe and of the
  source. In particular recording 0 and then 5 yields 4 lost packets at both levels, and
  recording 254 and then 1 yields 2.
\<close>

theorem RecordPacket_gap_loss:
  "validTracker s \<Longrightarrow> findSource u c s = Some src \<Longrightarrow> Source.PacketCount src \<noteq> 0 \<Longrightarrow>
     (unat sq = specExpected (Source.LastSequence src) \<longrightarrow>
        universeLost u (RecordPacket now u c name sq s) = universeLost u s \<and>
        sourceLost u c (RecordPacket now u c name sq s) = sourceLost u c s) \<and>
     (unat sq \<noteq> specExpected (Source.LastSequence src) \<longrightarrow>
        1 \<le> specForwardGap (specExpected (Source.LastSequence src)) sq \<and>
        specForwardGap (specExpected (Source.LastSequence src)) sq \<le> 255) \<and>
     (unat sq \<noteq> specExpected (Source.LastSequence src) \<and>
      specForwardGap (specExpected (Source.LastSequence src)) sq < 200 \<longrightarrow>
        universeLost u (RecordPacket now u c name sq s) =
          universeLost u s + of_nat (specForwardGap (specExpected (Source.LastSequence src)) sq) \<and>
        sourceLost u c (RecordPacket now u c name sq s) =
          sourceLost u c s + of_nat (specForwardGap (specExpected (Source.LastSequence src)) sq)) \<and>
     universeLost u' (RecordPacket now2 u' c' name' 5
        (RecordPacket now1 u' c' name' 0 (NewTracker, []))) = 4 \<and>
     sourceLost u' c' (RecordPacket now2 u' c' name' 5
        (RecordPacket now1 u' c' name' 0 (NewTracker, []))) = 4 \<and>
     universeLost u' (RecordPacket now2 u' c' name' 1
        (RecordPacket now1 u' c' name' 254 (NewTracker, []))) = 2 \<and>
     sourceLost u' c' (RecordPacket now2 u' c' name' 1
        (RecordPacket now1 u' c' name' 254 (NewTracker, []))) = 2"
proof -
  assume v: "validTracker s" and f: "findSource u c s = Some src"
    and pc: "Source.PacketCount src \<noteq> 0"
  have a: "unat sq = specExpected (Source.LastSequence src) \<longrightarrow>
        universeLost u (RecordPacket now u c name sq s) = universeLost u s \<and>
        sourceLost u c (RecordPacket now u c name sq s) = sourceLost u c s"
    using v pc by (simp add: universeLost_RecordPacket sourceLost_RecordPacket f specLoss_def)
  have b: "unat sq \<noteq> specExpected (Source.LastSequence src) \<longrightarrow>
        1 \<le> specForwardGap (specExpected (Source.LastSequence src)) sq \<and>
        specForwardGap (specExpected (Source.LastSequence src)) sq \<le> 255"
    using specForwardGap_range by blast
  have c: "unat sq \<noteq> specExpected (Source.LastSequence src) \<and>
      specForwardGap (specExpected (Source.LastSequence src)) sq < 200 \<longrightarrow>
        universeLost u (RecordPacket now u c name sq s) =
          universeLost u s + of_nat (specForwardGap (specExpected (Source.LastSequence src)) sq) \<and>
        sourceLost u c (RecordPacket now u c name sq s) =
          sourceLost u c s + of_nat (specForwardGap (specExpected (Source.LastSequence src)) sq)"
    using v pc by (simp add: universeLost_RecordPacket sourceLost_RecordPacket f specLoss_def)
  have d: "universeLost u' (RecordPacket now2 u' c' name' 5
        (RecordPacket now1 u' c' name' 0 (NewTracker, []))) = 4 \<and>
     sourceLost u' c' (RecordPacket now2 u' c' name' 5
        (RecordPacket now1 u' c' name' 0 (NewTracker, []))) = 4"
    using second_lost[of u' now2 c' name' 5 now1 0]
    by (simp add: specLoss_def specForwardGap_def specExpected_def)
  have e: "universeLost u' (RecordPacket now2 u' c' name' 1
        (RecordPacket now1 u' c' name' 254 (NewTracker, []))) = 2 \<and>
     sourceLost u' c' (RecordPacket now2 u' c' name' 1
        (RecordPacket now1 u' c' name' 254 (NewTracker, []))) = 2"
    using second_lost[of u' now2 c' name' 1 now1 254]
    by (simp add: specLoss_def specForwardGap_def specExpected_def)
  show ?thesis using a b c d e by blast
qed

theorem RecordPacket_gap_loss_witness:
  "validTracker (RecordPacket 1000 1 [1] [65] 0 (NewTracker, [])) \<and>
   findSource 1 [1] (RecordPacket 1000 1 [1] [65] 0 (NewTracker, [])) =
     Some \<lparr>CID = [1], Name = [65], LastSequence = 0, LastSeen = 1000,
           Source.PacketCount = 1, Source.LostPackets = 0\<rparr> \<and>
   unat (1 :: byte) = specExpected 0 \<and>
   universeLost 1 (RecordPacket 2000 1 [1] [65] 1
      (RecordPacket 1000 1 [1] [65] 0 (NewTracker, []))) = 0 \<and>
   unat (5 :: byte) \<noteq> specExpected 0 \<and> specForwardGap (specExpected 0) 5 = 4 \<and>
   universeLost 1 (RecordPacket 2000 1 [1] [65] 5
      (RecordPacket 1000 1 [1] [65] 0 (NewTracker, []))) = 4 \<and>
   sourceLost 1 [1] (RecordPacket 2000 1 [1] [65] 5
      (RecordPacket 1000 1 [1] [65] 0 (NewTracker, []))) = 4"
proof -
  let ?s = "RecordPacket 1000 1 [1] [65] 0 (NewTracker, [])"
  let ?src = "\<lparr>CID = [1], Name = [65], LastSequence = 0, LastSeen = 1000,
           Source.PacketCount = 1, Source.LostPackets = 0\<rparr>"
  have v: "validTracker ?s" and f: "findSource 1 [1] ?s = Some ?src"
    and l: "universeLost 1 ?s = 0" and sl: "sourceLost 1 [1] ?s = 0"
    using first_then[of 1 "[1]" 1000 "[65]" 0] by simp_all
  have pc: "Source.PacketCount ?src \<noteq> 0" by simp
  have e1: "unat (1 :: byte) = specExpected 0" by (simp add: specExpected_def)
  have e5: "unat (5 :: byte) \<noteq> specExpected 0" by (simp add: specExpected_def)
  have g5: "specForwardGap (specExpected 0) 5 = 4"
    by (simp add: specForwardGap_def specExpected_def)
  note t1 = RecordPacket_gap_loss[OF v f pc, of 1 2000 "[65]"]
  note t5 = RecordPacket_gap_loss[OF v f pc, of 5 2000 "[65]"]
  have r1: "universeLost 1 (RecordPacket 2000 1 [1] [65] 1 ?s) = 0"
    using t1 e1 l by simp
  have r5: "universeLost 1 (RecordPacket 2000 1 [1] [65] 5 ?s) = 4 \<and>
            sourceLost 1 [1] (RecordPacket 2000 1 [1] [65] 5 ?s) = 4"
    using t5 e5 g5 l sl by simp
  show ?thesis using v f e1 e5 g5 r1 r5 by simp
qed

lemma ResetUniverseStats_existing:
  "GetUniverseStats u t = Some p \<Longrightarrow>
   ResetUniverseStats u (t, h) = (t, h[p := resetLocked (h ! p)])"
  by (simp add: ResetUniverseStats_def GetUniverseStats_def)

lemma ResetUniverseStats_absent:
  "GetUniverseStats u t = None \<Longrightarrow> ResetUniverseStats u (t, h) = (t, h)"
  by (simp add: ResetUniverseStats_def GetUniverseStats_def)

lemma validTracker_ResetUniverseStats:
  "validTracker s \<Longrightarrow> validTracker (ResetUniverseStats u s)"
proof -
  assume v: "validTracker s"
  obtain t h where s: "s = (t, h)" by (cases s)
  show ?thesis using v
    by (cases "GetUniverseStats u t")
       (simp_all add: s ResetUniverseStats_existing ResetUniverseStats_absent validTracker_def)
qed

lemma map_of_resetLocked:
  "map_of (Sources (resetLocked st)) c =
     map_option (\<lambda>source. source\<lparr>Source.PacketCount := 0, Source.LostPackets := 0\<rparr>)
       (map_of (Sources st) c)"
  by (simp add: resetLocked_def map_of_map)

lemma findSource_ResetUniverseStats:
  "validTracker s \<Longrightarrow>
   findSource u c (ResetUniverseStats u s) =
     map_option (\<lambda>source. source\<lparr>Source.PacketCount := 0, Source.LostPackets := 0\<rparr>)
       (findSource u c s)"
proof -
  assume v: "validTracker s"
  obtain t h where s: "s = (t, h)" by (cases s)
  show ?thesis
  proof (cases "GetUniverseStats u t")
    case None
    then show ?thesis by (simp add: s ResetUniverseStats_absent findSource_def)
  next
    case (Some p)
    then have "p < length h" using v s valid_lookup by blast
    then show ?thesis using Some
      by (simp add: s ResetUniverseStats_existing findSource_def map_of_resetLocked)
  qed
qed

lemma universeLost_ResetUniverseStats:
  "validTracker s \<Longrightarrow> universeLost u (ResetUniverseStats u s) = 0"
proof -
  assume v: "validTracker s"
  obtain t h where s: "s = (t, h)" by (cases s)
  show ?thesis
  proof (cases "GetUniverseStats u t")
    case None
    then show ?thesis by (simp add: s ResetUniverseStats_absent universeLost_def)
  next
    case (Some p)
    then have "p < length h" using v s valid_lookup by blast
    then show ?thesis using Some
      by (simp add: s ResetUniverseStats_existing universeLost_def resetLocked_def)
  qed
qed

lemma sourceCount_ResetUniverseStats:
  "validTracker s \<Longrightarrow> sourceCount u c (ResetUniverseStats u s) = 0"
  by (cases "findSource u c s") (simp_all add: sourceCount_def findSource_ResetUniverseStats)

lemma sourceLost_ResetUniverseStats:
  "validTracker s \<Longrightarrow> sourceLost u c (ResetUniverseStats u s) = 0"
  by (cases "findSource u c s") (simp_all add: sourceLost_def findSource_ResetUniverseStats)

lemma RecordPacket_frame_obj:
  "validTracker (t, h) \<Longrightarrow> u' \<noteq> u \<Longrightarrow>
   GetUniverseStats u' (fst (RecordPacket now u c name sq (t, h))) = GetUniverseStats u' t \<and>
   (\<forall>p'. GetUniverseStats u' t = Some p' \<longrightarrow>
      snd (RecordPacket now u c name sq (t, h)) ! p' = h ! p')"
proof -
  assume v: "validTracker (t, h)" and ne: "u' \<noteq> u"
  show ?thesis
  proof (cases "GetUniverseStats u t")
    case None
    have "\<And>p'. GetUniverseStats u' t = Some p' \<Longrightarrow> p' < length h"
      using v valid_lookup by blast
    then show ?thesis using None ne
      by (auto simp: RecordPacket_new GetUniverseStats_def update_conv' nth_append)
  next
    case (Some p)
    have "\<And>p'. GetUniverseStats u' t = Some p' \<Longrightarrow> p' \<noteq> p"
      using v Some ne valid_lookup_inj by blast
    then show ?thesis using Some
      by (auto simp: RecordPacket_existing)
  qed
qed

lemma findSource_RecordPacket_frame:
  "validTracker s \<Longrightarrow> u' \<noteq> u \<Longrightarrow>
   findSource u' c' (RecordPacket now u c name sq s) = findSource u' c' s"
proof -
  assume v: "validTracker s" and ne: "u' \<noteq> u"
  obtain t h where s: "s = (t, h)" by (cases s)
  obtain t2 h2 where r: "RecordPacket now u c name sq (t, h) = (t2, h2)"
    by (cases "RecordPacket now u c name sq (t, h)")
  have g: "GetUniverseStats u' t2 = GetUniverseStats u' t"
    and o: "\<And>p'. GetUniverseStats u' t = Some p' \<Longrightarrow> h2 ! p' = h ! p'"
    using RecordPacket_frame_obj[OF v[unfolded s] ne, of now c name sq] r by simp_all
  show ?thesis
    by (cases "GetUniverseStats u' t") (simp_all add: s r findSource_def g o)
qed

lemma universeLost_RecordPacket_frame:
  "validTracker s \<Longrightarrow> u' \<noteq> u \<Longrightarrow>
   universeLost u' (RecordPacket now u c name sq s) = universeLost u' s"
proof -
  assume v: "validTracker s" and ne: "u' \<noteq> u"
  obtain t h where s: "s = (t, h)" by (cases s)
  obtain t2 h2 where r: "RecordPacket now u c name sq (t, h) = (t2, h2)"
    by (cases "RecordPacket now u c name sq (t, h)")
  have g: "GetUniverseStats u' t2 = GetUniverseStats u' t"
    and o: "\<And>p'. GetUniverseStats u' t = Some p' \<Longrightarrow> h2 ! p' = h ! p'"
    using RecordPacket_frame_obj[OF v[unfolded s] ne, of now c name sq] r by simp_all
  show ?thesis
    by (cases "GetUniverseStats u' t") (simp_all add: s r universeLost_def g o)
qed

lemma sourceLost_RecordPacket_frame:
  "validTracker s \<Longrightarrow> u' \<noteq> u \<Longrightarrow>
   sourceLost u' c' (RecordPacket now u c name sq s) = sourceLost u' c' s"
  by (simp add: sourceLost_def findSource_RecordPacket_frame)

lemma specLoss_first: "sourceCount u c s = 0 \<Longrightarrow> specLoss (findSource u c s) sq = 0"
  by (cases "findSource u c s") (simp_all add: sourceCount_def specLoss_def)

text \<open>
  Claim C10. \<open>RecordPacket\<close> adds no loss when the packet count of the matching source
  entry is zero, be it a source not seen before or a known source after
  \<open>ResetUniverseStats\<close>, whose left-over last sequence number is then ignored: no lost
  counter of any universe or source changes on such a call. So a lost counter changes
  only on a call that finds a positive packet count.
\<close>

theorem RecordPacket_first_no_loss:
  "validTracker s \<Longrightarrow>
     (sourceCount u c s = 0 \<longrightarrow>
        (\<forall>u'. universeLost u' (RecordPacket now u c name sq s) = universeLost u' s) \<and>
        (\<forall>u' c'. sourceLost u' c' (RecordPacket now u c name sq s) = sourceLost u' c' s)) \<and>
     sourceCount u c (ResetUniverseStats u s) = 0 \<and>
     universeLost u (RecordPacket now u c name sq (ResetUniverseStats u s)) = 0 \<and>
     sourceLost u c (RecordPacket now u c name sq (ResetUniverseStats u s)) = 0 \<and>
     (((\<exists>u'. universeLost u' (RecordPacket now u c name sq s) \<noteq> universeLost u' s) \<or>
       (\<exists>u' c'. sourceLost u' c' (RecordPacket now u c name sq s) \<noteq> sourceLost u' c' s)) \<longrightarrow>
        sourceCount u c s \<noteq> 0)"
proof -
  assume v: "validTracker s"
  have a: "sourceCount u c s = 0 \<longrightarrow>
        (\<forall>u'. universeLost u' (RecordPacket now u c name sq s) = universeLost u' s) \<and>
        (\<forall>u' c'. sourceLost u' c' (RecordPacket now u c name sq s) = sourceLost u' c' s)"
  proof
    assume z: "sourceCount u c s = 0"
    have l0: "specLoss (findSource u c s) sq = 0" using z by (rule specLoss_first)
    have sl: "sourceLost u' c' (RecordPacket now u c name sq s) = sourceLost u' c' s" for u' c'
    proof (cases "u' = u")
      case True
      then show ?thesis using v l0
        by (cases "c' = c") (simp_all add: sourceLost_RecordPacket sourceLost_RecordPacket_other)
    next
      case False
      then show ?thesis using v by (simp add: sourceLost_RecordPacket_frame)
    qed
    have ul: "universeLost u' (RecordPacket now u c name sq s) = universeLost u' s" for u'
      using v l0
      by (cases "u' = u") (simp_all add: universeLost_RecordPacket universeLost_RecordPacket_frame)
    show "(\<forall>u'. universeLost u' (RecordPacket now u c name sq s) = universeLost u' s) \<and>
        (\<forall>u' c'. sourceLost u' c' (RecordPacket now u c name sq s) = sourceLost u' c' s)"
      using sl ul by simp
  qed
  have vr: "validTracker (ResetUniverseStats u s)"
    using v by (rule validTracker_ResetUniverseStats)
  have b: "sourceCount u c (ResetUniverseStats u s) = 0"
    using v by (rule sourceCount_ResetUniverseStats)
  have l1: "specLoss (findSource u c (ResetUniverseStats u s)) sq = 0"
    using b by (rule specLoss_first)
  have c: "universeLost u (RecordPacket now u c name sq (ResetUniverseStats u s)) = 0"
    using vr l1 v by (simp add: universeLost_RecordPacket universeLost_ResetUniverseStats)
  have d: "sourceLost u c (RecordPacket now u c name sq (ResetUniverseStats u s)) = 0"
    using vr l1 v by (simp add: sourceLost_RecordPacket sourceLost_ResetUniverseStats)
  show ?thesis using a b c d by blast
qed

theorem RecordPacket_first_no_loss_witness:
  "validTracker (RecordPacket 2000 1 [1] [65] 5 (RecordPacket 1000 1 [1] [65] 0 (NewTracker, []))) \<and>
   universeLost 1 (RecordPacket 2000 1 [1] [65] 5 (RecordPacket 1000 1 [1] [65] 0 (NewTracker, []))) = 4 \<and>
   sourceCount 1 [2] (RecordPacket 2000 1 [1] [65] 5 (RecordPacket 1000 1 [1] [65] 0 (NewTracker, []))) = 0 \<and>
   universeLost 1 (RecordPacket 3000 1 [2] [66] 77
     (RecordPacket 2000 1 [1] [65] 5 (RecordPacket 1000 1 [1] [65] 0 (NewTracker, [])))) = 4 \<and>
   findSource 1 [1] (ResetUniverseStats 1
     (RecordPacket 2000 1 [1] [65] 5 (RecordPacket 1000 1 [1] [65] 0 (NewTracker, [])))) =
       Some \<lparr>CID = [1], Name = [65], LastSequence = 5, LastSeen = 2000,
             Source.PacketCount = 0, Source.LostPackets = 0\<rparr> \<and>
   universeLost 1 (RecordPacket 3000 1 [1] [65] 200 (ResetUniverseStats 1
     (RecordPacket 2000 1 [1] [65] 5 (RecordPacket 1000 1 [1] [65] 0 (NewTracker, []))))) = 0 \<and>
   sourceLost 1 [1] (RecordPacket 3000 1 [1] [65] 200 (ResetUniverseStats 1
     (RecordPacket 2000 1 [1] [65] 5 (RecordPacket 1000 1 [1] [65] 0 (NewTracker, []))))) = 0 \<and>
   universeLost 1 (RecordPacket 2000 1 [1] [65] 5 (RecordPacket 1000 1 [1] [65] 0 (NewTracker, []))) \<noteq>
     universeLost 1 (RecordPacket 1000 1 [1] [65] 0 (NewTracker, [])) \<and>
   sourceCount 1 [1] (RecordPacket 1000 1 [1] [65] 0 (NewTracker, [])) \<noteq> 0"
proof -
  let ?s1 = "RecordPacket 1000 1 [1] [65] 0 (NewTracker, [])"
  let ?s = "RecordPacket 2000 1 [1] [65] 5 ?s1"
  have v1: "validTracker ?s1"
    by (simp add: validTracker_RecordPacket validTracker_New)
  have f1: "findSource 1 [1] ?s1 = Some \<lparr>CID = [1], Name = [65], LastSequence = 0, LastSeen = 1000,
           Source.PacketCount = 1, Source.LostPackets = 0\<rparr>"
    using first_then[of 1 "[1]" 1000 "[65]" 0] by simp
  have v: "validTracker ?s"
    using v1 by (rule validTracker_RecordPacket)
  have l: "universeLost 1 ?s = 4"
    using second_lost[of 1 2000 "[1]" "[65]" 5 1000 0]
    by (simp add: specLoss_def specForwardGap_def specExpected_def)
  have f: "findSource 1 [1] ?s = Some \<lparr>CID = [1], Name = [65], LastSequence = 5, LastSeen = 2000,
           Source.PacketCount = 2, Source.LostPackets = 4\<rparr>"
    using v1 f1 by (simp add: findSource_RecordPacket specLoss_def specForwardGap_def specExpected_def)
  have f2: "findSource 1 [2] ?s = None"
    using v1 by (simp add: findSource_RecordPacket_other findSource_New validTracker_New)
  have z: "sourceCount 1 [2] ?s = 0"
    by (simp add: sourceCount_def f2)
  have fr: "findSource 1 [1] (ResetUniverseStats 1 ?s) =
       Some \<lparr>CID = [1], Name = [65], LastSequence = 5, LastSeen = 2000,
             Source.PacketCount = 0, Source.LostPackets = 0\<rparr>"
    using v f by (simp add: findSource_ResetUniverseStats)
  note t2 = RecordPacket_first_no_loss[OF v, of 1 "[2]" 3000 "[66]" 77]
  note t1 = RecordPacket_first_no_loss[OF v, of 1 "[1]" 3000 "[65]" 200]
  have r2: "universeLost 1 (RecordPacket 3000 1 [2] [66] 77 ?s) = 4"
    using t2 z l by simp
  have r1: "universeLost 1 (RecordPacket 3000 1 [1] [65] 200 (ResetUniverseStats 1 ?s)) = 0 \<and>
            sourceLost 1 [1] (RecordPacket 3000 1 [1] [65] 200 (ResetUniverseStats 1 ?s)) = 0"
    using t1 by blast
  have l1: "universeLost 1 ?s1 = 0"
    using first_then[of 1 "[1]" 1000 "[65]" 0] by simp
  have ch: "universeLost 1 ?s \<noteq> universeLost 1 ?s1"
    by (simp add: l l1)
  note t0 = RecordPacket_first_no_loss[OF v1, of 1 "[1]" 2000 "[65]" 5]
  have r0: "sourceCount 1 [1] ?s1 \<noteq> 0"
    using t0 ch by blast
  show ?thesis using v l z r2 fr r1 ch r0 by simp
qed

lemma GetSources_resetLocked:
  "map snd (Sources (resetLocked st)) =
     map (\<lambda>source. source\<lparr>Source.PacketCount := 0, Source.LostPackets := 0\<rparr>)
       (map snd (Sources st))"
  by (simp add: resetLocked_def case_prod_beta comp_def)

text \<open>
  Claim C9. \<open>ResetUniverseStats\<close> zeroes the universe's lifetime packet and lost
  counters, empties its rate and loss windows and zeroes the packet and lost counters of
  every tracked source, while every source entry stays, with its CID and name, and can
  still be looked up; \<open>ResetAllStats\<close> drops every universe, so that none is listed
  afterwards.
\<close>

theorem Reset_semantics:
  "validTracker (t, h) \<Longrightarrow> GetUniverseStats u t = Some p \<Longrightarrow>
     GetUniverseStats u (fst (ResetUniverseStats u (t, h))) = Some p \<and>
     UniverseStats.PacketCount (snd (ResetUniverseStats u (t, h)) ! p) = 0 \<and>
     UniverseStats.LostPackets (snd (ResetUniverseStats u (t, h)) ! p) = 0 \<and>
     packetsInWindow (snd (ResetUniverseStats u (t, h)) ! p) = [] \<and>
     lossWindow (snd (ResetUniverseStats u (t, h)) ! p) = [] \<and>
     list_all (\<lambda>source. Source.PacketCount source = 0 \<and> Source.LostPackets source = 0)
       (GetSources u (ResetUniverseStats u (t, h))) \<and>
     map Source.CID (GetSources u (ResetUniverseStats u (t, h))) =
       map Source.CID (GetSources u (t, h)) \<and>
     map Source.Name (GetSources u (ResetUniverseStats u (t, h))) =
       map Source.Name (GetSources u (t, h)) \<and>
     (\<forall>c. findSource u c (ResetUniverseStats u (t, h)) =
        map_option (\<lambda>source. source\<lparr>Source.PacketCount := 0, Source.LostPackets := 0\<rparr>)
          (findSource u c (t, h))) \<and>
     GetAllUniverseIDs (fst (ResetUniverseStats u (t, h))) = GetAllUniverseIDs t \<and>
     GetAllUniverseIDs (fst (ResetAllStats (t, h))) = [] \<and>
     (\<forall>u'. GetUniverseStats u' (fst (ResetAllStats (t, h))) = None \<and>
           GetSources u' (ResetAllStats (t, h)) = [])"
proof -
  assume v: "validTracker (t, h)" and g: "GetUniverseStats u t = Some p"
  have lt: "p < length h" using v g by (rule valid_lookup)
  have r: "ResetUniverseStats u (t, h) = (t, h[p := resetLocked (h ! p)])"
    using g by (rule ResetUniverseStats_existing)
  have o: "snd (ResetUniverseStats u (t, h)) ! p = resetLocked (h ! p)"
    using lt by (simp add: r)
  have gs: "GetSources u (ResetUniverseStats u (t, h)) =
      map (\<lambda>source. source\<lparr>Source.PacketCount := 0, Source.LostPackets := 0\<rparr>)
        (GetSources u (t, h))"
    using g lt by (simp add: r GetSources_def GetUniverseStats_def GetSources_resetLocked)
  have a1: "GetUniverseStats u (fst (ResetUniverseStats u (t, h))) = Some p"
    using g by (simp add: r)
  have a2: "UniverseStats.PacketCount (snd (ResetUniverseStats u (t, h)) ! p) = 0"
    "UniverseStats.LostPackets (snd (ResetUniverseStats u (t, h)) ! p) = 0"
    "packetsInWindow (snd (ResetUniverseStats u (t, h)) ! p) = []"
    "lossWindow (snd (ResetUniverseStats u (t, h)) ! p) = []"
    by (simp_all add: o resetLocked_def)
  have a3: "list_all (\<lambda>source. Source.PacketCount source = 0 \<and> Source.LostPackets source = 0)
       (GetSources u (ResetUniverseStats u (t, h)))"
    by (simp add: gs list_all_iff)
  have a4: "map Source.CID (GetSources u (ResetUniverseStats u (t, h))) =
       map Source.CID (GetSources u (t, h))"
    "map Source.Name (GetSources u (ResetUniverseStats u (t, h))) =
       map Source.Name (GetSources u (t, h))"
    by (simp_all add: gs comp_def)
  have a5: "\<forall>c. findSource u c (ResetUniverseStats u (t, h)) =
        map_option (\<lambda>source. source\<lparr>Source.PacketCount := 0, Source.LostPackets := 0\<rparr>)
          (findSource u c (t, h))"
    using v by (simp add: findSource_ResetUniverseStats)
  have a6: "GetAllUniverseIDs (fst (ResetUniverseStats u (t, h))) = GetAllUniverseIDs t"
    by (simp add: r)
  have a7: "GetAllUniverseIDs (fst (ResetAllStats (t, h))) = []"
    by (simp add: ResetAllStats_def GetAllUniverseIDs_def)
  have a8: "\<forall>u'. GetUniverseStats u' (fst (ResetAllStats (t, h))) = None \<and>
           GetSources u' (ResetAllStats (t, h)) = []"
    by (simp add: ResetAllStats_def GetUniverseStats_def GetSources_def)
  show ?thesis using a1 a2 a3 a4 a5 a6 a7 a8 by blast
qed

lemma two_packets:
  "RecordPacket 2000 1 [1] [65] 5 (RecordPacket 1000 1 [1] [65] 0 (NewTracker, [])) =
     (\<lparr>Tracker.universes = [(1, 0)], rateWindow = Second\<rparr>,
      [\<lparr>UniverseID = 1,
        Sources = [([1], \<lparr>CID = [1], Name = [65], LastSequence = 5, LastSeen = 2000,
                           Source.PacketCount = 2, Source.LostPackets = 4\<rparr>)],
        PacketCount = 2, LostPackets = 4, LastPacket = 2000,
        packetsInWindow = [1000, 2000],
        lossWindow = [\<lparr>Timestamp = 1000, Received = 1, Lost = 0\<rparr>,
                      \<lparr>Timestamp = 2000, Received = 1, Lost = 4\<rparr>]\<rparr>])"
  by (simp add: RecordPacket_def NewTracker_def recordLocked_def checkLoss_def Let_def
      Add_def After_def Second_def lossWindowDuration_def Minute_def
      sourceRestartThreshold_def)


theorem Reset_semantics_witness:
  "validTracker (\<lparr>Tracker.universes = [(1, 0)], rateWindow = Second\<rparr>,
      [\<lparr>UniverseID = 1,
        Sources = [([1], \<lparr>CID = [1], Name = [65], LastSequence = 5, LastSeen = 2000,
                           Source.PacketCount = 2, Source.LostPackets = 4\<rparr>)],
        PacketCount = 2, LostPackets = 4, LastPacket = 2000,
        packetsInWindow = [1000, 2000],
        lossWindow = [\<lparr>Timestamp = 1000, Received = 1, Lost = 0\<rparr>,
                      \<lparr>Timestamp = 2000, Received = 1, Lost = 4\<rparr>]\<rparr>]) \<and>
   GetUniverseStats 1 \<lparr>Tracker.universes = [(1, 0)], rateWindow = Second\<rparr> = Some 0 \<and>
   UniverseStats.PacketCount (snd (ResetUniverseStats 1
     (RecordPacket 2000 1 [1] [65] 5 (RecordPacket 1000 1 [1] [65] 0 (NewTracker, [])))) ! 0) = 0 \<and>
   UniverseStats.LostPackets (snd (ResetUniverseStats 1
     (RecordPacket 2000 1 [1] [65] 5 (RecordPacket 1000 1 [1] [65] 0 (NewTracker, [])))) ! 0) = 0 \<and>
   findSource 1 [1] (ResetUniverseStats 1
     (RecordPacket 2000 1 [1] [65] 5 (RecordPacket 1000 1 [1] [65] 0 (NewTracker, [])))) =
       Some \<lparr>CID = [1], Name = [65], LastSequence = 5, LastSeen = 2000,
             Source.PacketCount = 0, Source.LostPackets = 0\<rparr> \<and>
   map Source.Name (GetSources 1 (ResetUniverseStats 1
     (RecordPacket 2000 1 [1] [65] 5 (RecordPacket 1000 1 [1] [65] 0 (NewTracker, []))))) = [[65]] \<and>
   GetAllUniverseIDs (fst (RecordPacket 2000 1 [1] [65] 5
     (RecordPacket 1000 1 [1] [65] 0 (NewTracker, [])))) = [1] \<and>
   GetAllUniverseIDs (fst (ResetAllStats
     (RecordPacket 2000 1 [1] [65] 5 (RecordPacket 1000 1 [1] [65] 0 (NewTracker, []))))) = []"
proof -
  let ?t = "\<lparr>Tracker.universes = [(1, 0)], rateWindow = Second\<rparr>"
  let ?h = "[\<lparr>UniverseID = 1,
        Sources = [([1], \<lparr>CID = [1], Name = [65], LastSequence = 5, LastSeen = 2000,
                           Source.PacketCount = 2, Source.LostPackets = 4\<rparr>)],
        PacketCount = 2, LostPackets = 4, LastPacket = 2000,
        packetsInWindow = [1000, 2000],
        lossWindow = [\<lparr>Timestamp = 1000, Received = 1, Lost = 0\<rparr>,
                      \<lparr>Timestamp = 2000, Received = 1, Lost = 4\<rparr>]\<rparr>]"
  have v: "validTracker (?t, ?h)" by (simp add: validTracker_def)
  have g: "GetUniverseStats 1 ?t = Some 0" by (simp add: GetUniverseStats_def)
  have f: "findSource 1 [1] (?t, ?h) = Some \<lparr>CID = [1], Name = [65], LastSequence = 5,
      LastSeen = 2000, Source.PacketCount = 2, Source.LostPackets = 4\<rparr>"
    by (simp add: findSource_def GetUniverseStats_def)
  have n: "map Source.Name (GetSources 1 (?t, ?h)) = [[65]]"
    by (simp add: GetSources_def)
  have i: "GetAllUniverseIDs ?t = [1]" by (simp add: GetAllUniverseIDs_def)
  note t = Reset_semantics[OF v g]
  show ?thesis unfolding two_packets using t v g f n i by simp
qed

section \<open>Handles and copies returned by the queries\<close>




text \<open>
  The queries that copy are told from the ones that return pointers on the memory of
  the section above. The lemmas first follow each kind of write the core makes (a new
  cell, an object overwritten in place, a pointer entered in a map or removed from it),
  then each operation.
\<close>

subsection \<open>Cells and loads\<close>

lemma cellAt_update:
  "cellAt (m[a := c]) p = (if p = a \<and> a < length m then Some c else cellAt m p)"
  by (simp add: cellAt_def)

lemma cellAt_append:
  "p < length m \<Longrightarrow> cellAt (m @ n) p = cellAt m p"
  by (simp add: cellAt_def nth_append)





lemma load_update_other:
  "p \<noteq> a \<Longrightarrow> loadStats (m[a := c]) p = loadStats m p"
  "p \<noteq> a \<Longrightarrow> loadSource (m[a := c]) p = loadSource m p"
  "p \<noteq> a \<Longrightarrow> loadUniverse (m[a := c]) p = loadUniverse m p"
  by (simp_all add: loadStats_def loadSource_def loadUniverse_def cellAt_update)

lemma load_append:
  "p < length m \<Longrightarrow> loadStats (m @ n) p = loadStats m p"
  "p < length m \<Longrightarrow> loadSource (m @ n) p = loadSource m p"
  "p < length m \<Longrightarrow> loadUniverse (m @ n) p = loadUniverse m p"
  by (simp_all add: loadStats_def loadSource_def loadUniverse_def cellAt_append)




subsection \<open>Reach\<close>

lemma sourcePointers_update_other:
  "p \<noteq> a \<Longrightarrow> sourcePointers (m[a := c]) p = sourcePointers m p"
  by (simp add: sourcePointers_def load_update_other)


lemma reach_update_other:
  "a \<notin> set (map snd (Tracker.universes t)) \<Longrightarrow> reach t mg (m[a := c]) = reach t mg m"
proof -
  assume n: "a \<notin> set (map snd (Tracker.universes t))"
  have "\<And>b. b \<in> set (map snd (Tracker.universes t)) \<Longrightarrow>
          sourcePointers (m[a := c]) b = sourcePointers m b"
    using n by (metis sourcePointers_update_other)
  then have eq: "map (sourcePointers (m[a := c])) (map snd (Tracker.universes t)) =
        map (sourcePointers m) (map snd (Tracker.universes t))"
    by (intro map_cong refl)
  show ?thesis unfolding reach_def eq by (rule refl)
qed

lemma outOfReach_not_stats:
  "outOfReach a t mg m \<Longrightarrow> a \<notin> set (map snd (Tracker.universes t))"
  by (simp add: outOfReach_def reach_def)


lemma managerPointer_reach:
  "map_of (Manager.universes mg) uid = Some p \<Longrightarrow> p \<in> set (reach t mg m)"
  by (auto simp: reach_def dest!: map_of_SomeD intro: rev_image_eqI)




lemma wellFormed_universe:
  "wellFormed t mg m \<Longrightarrow> map_of (Manager.universes mg) uid = Some p \<Longrightarrow>
   \<exists>u. loadUniverse m p = Some u"
  by (auto simp: wellFormed_def list_all_iff dest!: map_of_SomeD)



lemma wellFormedD:
  "wellFormed t mg m \<Longrightarrow> p \<in> snd ` set (Tracker.universes t) \<Longrightarrow>
     \<exists>stats. loadStats m p = Some stats"
  "wellFormed t mg m \<Longrightarrow> p \<in> snd ` set (Tracker.universes t) \<Longrightarrow>
     s \<in> set (sourcePointers m p) \<Longrightarrow> \<exists>source. loadSource m s = Some source"
  "wellFormed t mg m \<Longrightarrow> q \<in> snd ` set (Manager.universes mg) \<Longrightarrow>
     \<exists>u. loadUniverse m q = Some u"
  by (fastforce simp: wellFormed_def list_all_iff)+

lemma wellFormedI:
  "(\<And>p. p \<in> snd ` set (Tracker.universes t) \<Longrightarrow> loadStats m p \<noteq> None) \<Longrightarrow>
   (\<And>p s. p \<in> snd ` set (Tracker.universes t) \<Longrightarrow> s \<in> set (sourcePointers m p) \<Longrightarrow>
      loadSource m s \<noteq> None) \<Longrightarrow>
   (\<And>q. q \<in> snd ` set (Manager.universes mg) \<Longrightarrow> loadUniverse m q \<noteq> None) \<Longrightarrow>
   wellFormed t mg m"
  by (fastforce simp: wellFormed_def list_all_iff)


lemma reachI:
  "p \<in> snd ` set (Tracker.universes t) \<Longrightarrow> p \<in> set (reach t mg m)"
  "p \<in> snd ` set (Tracker.universes t) \<Longrightarrow> s \<in> set (sourcePointers m p) \<Longrightarrow>
     s \<in> set (reach t mg m)"
  "q \<in> snd ` set (Manager.universes mg) \<Longrightarrow> q \<in> set (reach t mg m)"
  by (auto simp: reach_def)


subsection \<open>Growing the memory\<close>






subsection \<open>A write to a cell out of reach\<close>

lemma wellFormed_write:
  "wellFormed t mg m \<Longrightarrow> outOfReach a t mg m \<Longrightarrow>
   wellFormed t mg (m[a := c]) \<and> reach t mg (m[a := c]) = reach t mg m"
proof -
  assume w: "wellFormed t mg m" and o: "outOfReach a t mg m"
  have r: "reach t mg (m[a := c]) = reach t mg m"
    using outOfReach_not_stats[OF o] by (rule reach_update_other)
  have ne: "\<And>p. p \<in> set (reach t mg m) \<Longrightarrow> p \<noteq> a"
    using o by (auto simp: outOfReach_def)
  have "wellFormed t mg (m[a := c])"
  proof (rule wellFormedI)
    show "loadStats (m[a := c]) p \<noteq> None" if p: "p \<in> snd ` set (Tracker.universes t)" for p
      using wellFormedD(1)[OF w p] ne[OF reachI(1)[OF p]] by (simp add: load_update_other)
    show "loadSource (m[a := c]) s \<noteq> None"
      if p: "p \<in> snd ` set (Tracker.universes t)"
        and s: "s \<in> set (sourcePointers (m[a := c]) p)" for p s
    proof -
      have pa: "p \<noteq> a" using ne[OF reachI(1)[OF p]] .
      then have s': "s \<in> set (sourcePointers m p)"
        using s by (simp add: sourcePointers_update_other)
      have "s \<noteq> a" using ne[OF reachI(2)[OF p s']] .
      then show ?thesis using wellFormedD(2)[OF w p s'] by (simp add: load_update_other)
    qed
    show "loadUniverse (m[a := c]) q \<noteq> None" if q: "q \<in> snd ` set (Manager.universes mg)" for q
      using wellFormedD(3)[OF w q] ne[OF reachI(3)[OF q]] by (simp add: load_update_other)
  qed
  then show ?thesis using r by simp
qed

subsection \<open>The queries that copy\<close>


lemma copySources_append:
  "\<forall>p\<in>set ps. p < length m \<Longrightarrow> copySources (m @ n) ps = copySources m ps"
proof (induction ps)
  case Nil
  show ?case by simp
next
  case (Cons s ps)
  then have "s < length m" and ih: "copySources (m @ n) ps = copySources m ps" by auto
  then have "loadSource (m @ n) s = loadSource m s" by (simp add: load_append)
  then show ?case by (cases "loadSource m s") (simp_all add: ih)
qed










subsection \<open>RecordPacket on the memory\<close>







subsection \<open>Writes the core makes\<close>













subsection \<open>Operations ignore a cell out of reach\<close>



subsection \<open>ResetUniverseStats on the memory\<close>





subsection \<open>The manager on the memory\<close>
















end
